theory Spec2Isabelle
  imports Main "HOL-Library.Word"
begin

section \<open>JavaScript strings and the runtime's built-ins\<close>

text \<open>
  A JavaScript string is a sequence of UTF-16 code units; \<open>length\<close>, \<open>split('')\<close>,
  the regular expression classes and \<open>===\<close> all work on code units.
\<close>

type_synonym jsstring = "16 word list"

definition asc :: "string \<Rightarrow> jsstring" where
  \<comment> \<open>a string literal of the source, all of whose characters are ASCII\<close>
  "asc s = map (\<lambda>c. of_nat (of_char c)) s"

text \<open>
  The numbers of this program are identifiers, counts, indices and millisecond clock
  readings: integers far below \<open>2 ^ 53\<close>, on which the arithmetic of IEEE doubles is
  exact. \<open>NaN\<close> is kept, because \<open>Number\<close> and \<open>parseInt\<close> yield it on text that is not
  a number, and because it decides comparisons (\<open>NaN === 1\<close>, \<open>i < NaN\<close> are false).
\<close>

datatype jsnum = NaN | Num int

fun num_add :: "jsnum \<Rightarrow> jsnum \<Rightarrow> jsnum" where
  "num_add (Num a) (Num b) = Num (a + b)"
| "num_add _ _ = NaN"

fun num_sub :: "jsnum \<Rightarrow> jsnum \<Rightarrow> jsnum" where
  "num_sub (Num a) (Num b) = Num (a - b)"
| "num_sub _ _ = NaN"

fun num_less :: "jsnum \<Rightarrow> jsnum \<Rightarrow> bool" where
  "num_less (Num a) (Num b) = (a < b)"
| "num_less _ _ = False"

text \<open>
  \<open>String.prototype.normalize('NFD')\<close>, \<open>String.prototype.toLowerCase\<close> and \<open>Number\<close>
  are built-ins of the JavaScript runtime, driven by the tables of the Unicode Character
  Database and by the numeric-literal grammar. They are not code of this repository, so
  the functions below take them as a parameter: every theorem that quantifies over the
  runtime holds for the real one.
\<close>

record runtime =
  NFD :: "jsstring \<Rightarrow> jsstring"
  toLowerCase :: "jsstring \<Rightarrow> jsstring"
  Number :: "jsstring \<Rightarrow> jsnum"

definition is_ws :: "16 word \<Rightarrow> bool" where
  \<comment> \<open>the class \<open>\s\<close> of regular expressions, which is also what \<open>trim\<close> removes:
      WhiteSpace and LineTerminator of ECMAScript\<close>
  "is_ws c \<longleftrightarrow>
     c = 0x09 \<or> c = 0x0A \<or> c = 0x0B \<or> c = 0x0C \<or> c = 0x0D \<or> c = 0x20 \<or> c = 0xA0 \<or>
     c = 0x1680 \<or> (0x2000 \<le> c \<and> c \<le> 0x200A) \<or> c = 0x2028 \<or> c = 0x2029 \<or>
     c = 0x202F \<or> c = 0x205F \<or> c = 0x3000 \<or> c = 0xFEFF"

definition trim :: "jsstring \<Rightarrow> jsstring" where
  "trim s = rev (dropWhile is_ws (rev (dropWhile is_ws s)))"

fun split_ws :: "jsstring \<Rightarrow> jsstring list" where
  \<comment> \<open>\<open>s.split(/\s+/)\<close>: the pieces between the maximal runs of white space; a run at
      either end leaves an empty piece there, and the empty string gives one empty piece\<close>
  "split_ws [] = [[]]"
| "split_ws (c # cs) =
     (if is_ws c then
        (case cs of
           [] \<Rightarrow> [[], []]
         | d # _ \<Rightarrow> if is_ws d then split_ws cs else [] # split_ws cs)
      else
        (case split_ws cs of
           [] \<Rightarrow> [[c]]
         | t # ts \<Rightarrow> (c # t) # ts))"

declare split_ws.simps(2) [simp del]

fun join :: "jsstring \<Rightarrow> jsstring list \<Rightarrow> jsstring" where
  \<comment> \<open>\<open>parts.join(sep)\<close>\<close>
  "join sep [] = []"
| "join sep [p] = p"
| "join sep (p # q # ps) = p @ sep @ join sep (q # ps)"

definition slice_last :: "nat \<Rightarrow> 'a list \<Rightarrow> 'a list" where
  \<comment> \<open>\<open>xs.slice(-n)\<close>: the last \<open>n\<close> elements, all of them when there are fewer\<close>
  "slice_last n xs = drop (length xs - n) xs"

definition is_digit :: "16 word \<Rightarrow> bool" where
  "is_digit c \<longleftrightarrow> 0x30 \<le> c \<and> c \<le> 0x39"

definition digits_value :: "jsstring \<Rightarrow> int" where
  "digits_value s = foldl (\<lambda>n c. 10 * n + (uint c - 48)) 0 s"

definition parseInt :: "jsstring \<Rightarrow> jsnum" where
  \<comment> \<open>\<open>parseInt(s, 10)\<close>: leading white space, a sign, then the longest run of digits\<close>
  "parseInt s =
     (let t = dropWhile is_ws s;
          negative = (case t of [] \<Rightarrow> False | c # r \<Rightarrow> c = 0x2D);
          u = (case t of [] \<Rightarrow> [] | c # r \<Rightarrow> if c = 0x2D \<or> c = 0x2B then r else t);
          ds = takeWhile is_digit u
      in if ds = [] then NaN
         else Num ((if negative then - 1 else 1) * digits_value ds))"

function digits :: "nat \<Rightarrow> jsstring" where
  "digits n = (if n < 10 then [0x30 + of_nat n] else digits (n div 10) @ [0x30 + of_nat (n mod 10)])"
  by pat_completeness auto
termination
  by (relation "measure id") auto

declare digits.simps [simp del]

definition show_int :: "int \<Rightarrow> jsstring" where
  \<comment> \<open>\<open>`${n}`\<close> for an integer \<open>n\<close> of the size of an identifier or a count\<close>
  "show_int n = (if n < 0 then 0x2D # digits (nat (- n)) else digits (nat n))"

section \<open>The name matching service\<close>

subsection \<open>The two memoization maps\<close>

text \<open>
  A JavaScript \<open>Map\<close> keeps its keys in insertion order, each key once:
  an association list. \<open>has\<close> and \<open>get\<close> are \<open>map_of\<close>, \<open>set\<close> overwrites in place
  or appends, \<open>delete\<close> removes the key, \<open>keys().next().value\<close> is the oldest key.
\<close>

type_synonym 'v jsmap = "(jsstring \<times> 'v) list"

type_synonym memo = "jsstring jsmap"

fun jsmap_set :: "jsstring \<Rightarrow> 'v \<Rightarrow> 'v jsmap \<Rightarrow> 'v jsmap" where
  "jsmap_set k v [] = [(k, v)]"
| "jsmap_set k v ((k', v') # m) =
     (if k' = k then (k, v) # m else (k', v') # jsmap_set k v m)"

definition jsmap_delete :: "jsstring \<Rightarrow> 'v jsmap \<Rightarrow> 'v jsmap" where
  "jsmap_delete k m = filter (\<lambda>(k', v). k' \<noteq> k) m"

definition limit_size :: "memo \<Rightarrow> memo" where
  \<comment> \<open>\<open>if (cache.size > 1000) { const firstKey = cache.keys().next().value;
      if (firstKey) cache.delete(firstKey); }\<close>: the empty string is falsy and stays\<close>
  "limit_size m =
     (if length m > 1000 then
        (case m of
           [] \<Rightarrow> m
         | (firstKey, v) # rest \<Rightarrow> if firstKey \<noteq> [] then jsmap_delete firstKey m else m)
      else m)"

record name_service =
  normalizeCache :: memo
  hintCache :: memo

definition new_service :: name_service where
  "new_service = \<lparr> normalizeCache = [], hintCache = [] \<rparr>"

subsection \<open>normalize\<close>

definition strip_marks :: "jsstring \<Rightarrow> jsstring" where
  \<comment> \<open>\<open>.replace(/[U+0300-U+036F]/g, '')\<close>: the block of combining diacritical marks\<close>
  "strip_marks s = filter (\<lambda>c. \<not> (0x0300 \<le> c \<and> c \<le> 0x036F)) s"

definition normalized :: "runtime \<Rightarrow> jsstring \<Rightarrow> jsstring" where
  \<comment> \<open>the value that \<open>normalize\<close> computes on a cache miss\<close>
  "normalized R name = trim (toLowerCase R (strip_marks (NFD R name)))"

definition normalize :: "runtime \<Rightarrow> jsstring \<Rightarrow> name_service \<Rightarrow> jsstring \<times> name_service" where
  "normalize R name svc =
     (case map_of (normalizeCache svc) name of
        Some hit \<Rightarrow> (hit, svc)
      | None \<Rightarrow>
          (normalized R name,
           svc\<lparr>normalizeCache :=
                 limit_size (jsmap_set name (normalized R name) (normalizeCache svc))\<rparr>))"


subsection \<open>getLastName\<close>

definition prefixes :: "jsstring list" where
  "prefixes = map asc [''de'', ''van'', ''von'', ''del'', ''della'', ''di'', ''da'', ''le'',
                       ''la'', ''el'', ''al'', ''dos'', ''das'', ''mac'', ''mc'']"

definition part_from_end :: "nat \<Rightarrow> jsstring list \<Rightarrow> jsstring" where
  \<comment> \<open>\<open>nameParts[nameParts.length - n]\<close>, read only where \<open>n \<le> nameParts.length\<close>\<close>
  "part_from_end n parts = parts ! (length parts - n)"

definition getLastName :: "runtime \<Rightarrow> jsstring \<Rightarrow> jsstring" where
  "getLastName R name =
     (let nameParts = split_ws (trim name) in
      if length nameParts = 1 then nameParts ! 0
      else if length nameParts \<ge> 2 \<and>
              toLowerCase R (part_from_end 2 nameParts) \<in> set prefixes
      then join (asc '' '') (slice_last 2 nameParts)
      else if length nameParts \<ge> 3 \<and>
              toLowerCase R (part_from_end 3 nameParts) \<in> set prefixes \<and>
              (toLowerCase R (part_from_end 2 nameParts) \<in> set prefixes \<or>
               toLowerCase R (part_from_end 2 nameParts) = asc ''der'' \<or>
               toLowerCase R (part_from_end 2 nameParts) = asc ''den'')
      then join (asc '' '') (slice_last 3 nameParts)
      else nameParts ! (length nameParts - 1))"

subsection \<open>isMatch\<close>

definition isMatch :: "runtime \<Rightarrow> jsstring \<Rightarrow> jsstring \<Rightarrow> name_service \<Rightarrow> bool \<times> name_service" where
  "isMatch R guess actualName svc =
     (let (normalizedGuess, svc1) = normalize R guess svc;
          lastName = getLastName R actualName;
          (normalizedLastName, svc2) = normalize R lastName svc1
      in if normalizedGuess = normalizedLastName then (True, svc2)
         else
           let lastNameParts = split_ws lastName in
           if length lastNameParts > 1 then
             (let finalPart = lastNameParts ! (length lastNameParts - 1);
                  (normalizedFinal, svc3) = normalize R finalPart svc2
              in if normalizedGuess = normalizedFinal then (True, svc3) else (False, svc3))
           else (False, svc2))"

subsection \<open>generateLetterHint\<close>

definition hint_char :: "16 word \<Rightarrow> 16 word" where
  \<comment> \<open>the callback of \<open>map\<close>: hyphen, apostrophe and period stay, the rest is an underscore\<close>
  "hint_char c =
     (if c = 0x2D then 0x2D
      else if c = 0x27 then 0x27
      else if c = 0x2E then 0x2E
      else 0x5F)"

definition hint_of :: "runtime \<Rightarrow> jsstring \<Rightarrow> jsstring" where
  \<comment> \<open>the value that \<open>generateLetterHint\<close> computes on a cache miss:
      \<open>lastName.split('').map(...).join('')\<close>, code unit by code unit\<close>
  "hint_of R name = map hint_char (getLastName R name)"

definition generateLetterHint :: "runtime \<Rightarrow> jsstring \<Rightarrow> name_service \<Rightarrow> jsstring \<times> name_service" where
  "generateLetterHint R name svc =
     (case map_of (hintCache svc) name of
        Some hit \<Rightarrow> (hit, svc)
      | None \<Rightarrow>
          (hint_of R name,
           svc\<lparr>hintCache := limit_size (jsmap_set name (hint_of R name) (hintCache svc))\<rparr>))"

section \<open>The storage service\<close>

text \<open>
  \<open>localStorage\<close> maps keys to texts. Three kinds of text are told apart:
  \<^item> the JSON of a \<open>CacheEntry\<close>, as \<open>JSON.parse\<close> reads it back: the data, the
    timestamp and the time-to-live. The data that come back need not be the data that
    were saved: \<open>JSON.stringify\<close> writes \<open>NaN\<close> as \<open>null\<close> and leaves \<open>undefined\<close>
    out. What \<open>JSON.parse(JSON.stringify(data))\<close> gives is a parameter of
    \<open>saveCacheEntry\<close>, with \<open>None\<close> for \<open>null\<close> and \<open>undefined\<close>;
  \<^item> the empty text, which is falsy: \<open>getCacheEntry\<close> returns \<open>null\<close> without parsing
    it, and \<open>clearExpiredCache\<close> skips it;
  \<^item> any other text that cannot be read as an entry (\<open>JSON.parse\<close> throws, as on the
    probe value of \<open>isAvailable\<close>).
  Whether the browser accepts a write is not decided by the program: a quota can be
  exceeded, storage can be disabled. It is a parameter, asked with the store, the key and
  the value of the write.
\<close>

datatype 'd item = CacheJSON "'d option" int int | Empty | Garbage

type_synonym 'd store = "jsstring \<rightharpoonup> 'd item"

type_synonym 'd json = "'d \<Rightarrow> 'd option"

datatype set_result = Stored | QuotaExceededError | OtherError

type_synonym 'd browser = "'d store \<Rightarrow> jsstring \<Rightarrow> 'd item \<Rightarrow> set_result"

definition CACHE_PREFIX :: jsstring where
  "CACHE_PREFIX = asc ''classic-caps-api-cache-''"

definition testKey :: jsstring where
  "testKey = asc ''__storage_test__''"

definition isAvailable :: "'d browser \<Rightarrow> 'd store \<Rightarrow> bool \<times> 'd store" where
  \<comment> \<open>\<open>try { setItem(testKey, 'test'); removeItem(testKey); return true }
      catch (e) { return false }\<close>\<close>
  "isAvailable B st =
     (case B st testKey Garbage of
        Stored \<Rightarrow> (True, st(testKey := None))
      | _ \<Rightarrow> (False, st))"

definition expired :: "int \<Rightarrow> 'd item \<Rightarrow> bool" where
  \<comment> \<open>\<open>const age = now - parsed.timestamp; age >= parsed.ttl\<close>\<close>
  "expired now v = (case v of CacheJSON d ts ttl \<Rightarrow> now - ts \<ge> ttl | _ \<Rightarrow> False)"

definition startsWith :: "jsstring \<Rightarrow> jsstring \<Rightarrow> bool" where
  "startsWith k pre \<longleftrightarrow> take (length pre) k = pre"

definition clearExpiredCache :: "'d browser \<Rightarrow> int \<Rightarrow> 'd store \<Rightarrow> 'd store" where
  \<comment> \<open>collects the cache keys whose text is not empty and is an expired entry or does not
      parse, then removes them\<close>
  "clearExpiredCache B now st =
     (case isAvailable B st of
        (False, st0) \<Rightarrow> st0
      | (True, st0) \<Rightarrow>
          (\<lambda>k. case st0 k of
                 None \<Rightarrow> None
               | Some v \<Rightarrow>
                   if startsWith k CACHE_PREFIX \<and> v \<noteq> Empty \<and> (v = Garbage \<or> expired now v)
                   then None
                   else Some v))"

record save_clock =
  \<comment> \<open>the readings of \<open>Date.now()\<close> that one \<open>saveCacheEntry\<close> can take\<close>
  at_write :: int
  at_clear :: int
  at_retry :: int

definition saveCacheEntry ::
  "'d json \<Rightarrow> 'd browser \<Rightarrow> save_clock \<Rightarrow> jsstring \<Rightarrow> 'd \<Rightarrow> int \<Rightarrow> 'd store \<Rightarrow> 'd store" where
  \<comment> \<open>\<open>J data\<close> is \<open>JSON.parse(JSON.stringify(data))\<close>\<close>
  "saveCacheEntry J B clock key data ttl st =
     (case isAvailable B st of
        (False, st0) \<Rightarrow> st0
      | (True, st0) \<Rightarrow>
          (case B st0 (CACHE_PREFIX @ key) (CacheJSON (J data) (at_write clock) ttl) of
             Stored \<Rightarrow> st0(CACHE_PREFIX @ key \<mapsto> CacheJSON (J data) (at_write clock) ttl)
           | QuotaExceededError \<Rightarrow>
               (let st1 = clearExpiredCache B (at_clear clock) st0 in
                case B st1 (CACHE_PREFIX @ key) (CacheJSON (J data) (at_retry clock) ttl) of
                  Stored \<Rightarrow> st1(CACHE_PREFIX @ key \<mapsto> CacheJSON (J data) (at_retry clock) ttl)
                | _ \<Rightarrow> st1)
           | OtherError \<Rightarrow> st0))"

definition getCacheEntry :: "'d browser \<Rightarrow> int \<Rightarrow> jsstring \<Rightarrow> 'd store \<Rightarrow> 'd option \<times> 'd store" where
  \<comment> \<open>\<open>None\<close> is the \<open>null\<close> (or \<open>undefined\<close>) of the source, also when it is the
      \<open>parsed.data\<close> of an entry that has not expired\<close>
  "getCacheEntry B now key st =
     (case isAvailable B st of
        (False, st0) \<Rightarrow> (None, st0)
      | (True, st0) \<Rightarrow>
          (case st0 (CACHE_PREFIX @ key) of
             None \<Rightarrow> (None, st0)
           | Some Empty \<Rightarrow> (None, st0)
           | Some Garbage \<Rightarrow> (None, st0)
           | Some (CacheJSON data ts ttl) \<Rightarrow>
               if now - ts \<ge> ttl then (None, st0(CACHE_PREFIX @ key := None))
               else (data, st0)))"

section \<open>The football API service\<close>

subsection \<open>convertGridToPosition\<close>

fun split_on :: "16 word \<Rightarrow> jsstring \<Rightarrow> jsstring list" where
  \<comment> \<open>\<open>s.split(sep)\<close> for a separator of one character\<close>
  "split_on sep [] = [[]]"
| "split_on sep (c # cs) =
     (if c = sep then [] # split_on sep cs
      else
        (case split_on sep cs of
           [] \<Rightarrow> [[c]]
         | t # ts \<Rightarrow> (c # t) # ts))"

function add_rows :: "jsnum \<Rightarrow> jsnum list \<Rightarrow> nat \<Rightarrow> jsnum \<Rightarrow> jsnum" where
  \<comment> \<open>\<open>for (let i = 0; i < row - 2 && i < formationParts.length; i++)
        position += formationParts[i];\<close>\<close>
  "add_rows row formationParts i position =
     (if num_less (Num (int i)) (num_sub row (Num 2)) \<and> i < length formationParts
      then add_rows row formationParts (i + 1) (num_add position (formationParts ! i))
      else position)"
  by pat_completeness auto
termination
  by (relation "measure (\<lambda>(row, formationParts, i, position). length formationParts - i)") auto

declare add_rows.simps [simp del]

definition convertGridToPosition :: "runtime \<Rightarrow> jsstring \<Rightarrow> jsstring \<Rightarrow> jsnum" where
  \<comment> \<open>\<open>const [row, col] = grid.split(':').map(Number)\<close>: a missing second piece leaves
      \<open>col\<close> undefined, and \<open>undefined - 1\<close> is \<open>NaN\<close>\<close>
  "convertGridToPosition R grid formation =
     (let pieces = map (Number R) (split_on 0x3A grid);
          row = pieces ! 0;
          col = (if length pieces > 1 then pieces ! 1 else NaN)
      in if row = Num 1 then Num 0
         else
           let formationParts = map (Number R) (split_on 0x2D formation);
               position = add_rows row formationParts 0 (Num 1)
           in num_add position (num_sub col (Num 1)))"

subsection \<open>Errors, responses and the network\<close>

text \<open>
  What the service throws is an \<open>APIError\<close> (status code, message, retryable flag) or a
  plain \<open>Error\<close> (message).
\<close>

datatype failure = APIError int jsstring bool | Error jsstring

datatype thrown = TypeError_fetch | Unexpected
  \<comment> \<open>what \<open>fetch\<close> or \<open>response.json()\<close> can throw: a \<open>TypeError\<close> whose message
      contains "fetch", or anything else\<close>

datatype 'a body = BodyThrows thrown | Envelope "jsstring list" "'a list"
  \<comment> \<open>\<open>await response.json()\<close>: it throws, or gives the envelope with its \<open>errors\<close> and
      \<open>response\<close> arrays\<close>

record 'a http_response =
  status :: int
  statusText :: jsstring
  retryAfter :: "jsstring option"  \<comment> \<open>\<open>response.headers.get('Retry-After')\<close>\<close>
  body :: "'a body"

datatype 'a fetch_outcome = Responds "'a http_response" | FetchThrows thrown

record 'a attempt =
  \<comment> \<open>what one run of \<open>fetchAPI\<close> meets: \<open>online\<close> is \<open>!this.isOffline()\<close>, \<open>outcome\<close> is
      what \<open>fetch\<close> does\<close>
  online :: bool
  outcome :: "'a fetch_outcome"

datatype event = Fetch jsstring | Sleep int
  \<comment> \<open>the network calls and the delays of a run, in their order\<close>

definition MAX_RETRIES :: nat where
  "MAX_RETRIES = 3"

definition INITIAL_RETRY_DELAY :: int where
  "INITIAL_RETRY_DELAY = 1000"

definition CACHE_TTL_30_DAYS :: int where
  "CACHE_TTL_30_DAYS = 30 * 24 * 60 * 60 * 1000"

definition CACHE_TTL_INDEFINITE :: int where
  "CACHE_TTL_INDEFINITE = 365 * 24 * 60 * 60 * 1000"

definition ok :: "'a http_response \<Rightarrow> bool" where
  \<comment> \<open>\<open>response.ok\<close>\<close>
  "ok r \<longleftrightarrow> 200 \<le> status r \<and> status r \<le> 299"

definition handleRateLimit :: "'a http_response \<Rightarrow> nat \<Rightarrow> int" where
  "handleRateLimit response retryCount =
     (let backoff = INITIAL_RETRY_DELAY * 2 ^ retryCount in
      case retryAfter response of
        None \<Rightarrow> backoff
      | Some header \<Rightarrow>
          if header = [] then backoff
          else (case parseInt header of
                  Num retryAfterSeconds \<Rightarrow> retryAfterSeconds * 1000
                | NaN \<Rightarrow> backoff))"

definition handleAPIError :: "int \<Rightarrow> jsstring \<Rightarrow> failure" where
  \<comment> \<open>the error that \<open>handleAPIError\<close> throws\<close>
  "handleAPIError statusCode text =
     (if statusCode = 400 then
        APIError statusCode (asc ''Invalid request. Please check your selection and try again.'') False
      else if statusCode = 401 then
        APIError statusCode
          (asc ''API authentication failed. Please check your API key configuration.'') False
      else if statusCode = 403 then
        APIError statusCode
          (asc ''Access forbidden. Your API key may not have permission for this resource.'') False
      else if statusCode = 404 then
        APIError statusCode
          (asc ''The requested data was not found. This fixture may not have lineup data available.'')
          False
      else if statusCode = 429 then
        APIError statusCode (asc ''Rate limit exceeded. Please wait a moment and try again.'') True
      else if statusCode = 500 \<or> statusCode = 502 \<or> statusCode = 503 \<or> statusCode = 504 then
        APIError statusCode
          (asc ''The football API is temporarily unavailable. Please try again in a moment.'') True
      else
        APIError statusCode
          (asc ''API request failed: '' @ show_int statusCode @ asc '' '' @ text)
          (statusCode \<ge> 500))"

definition rethrow :: "thrown \<Rightarrow> failure" where
  \<comment> \<open>the \<open>catch\<close> block of \<open>fetchAPI\<close> on an error that is not an \<open>APIError\<close>\<close>
  "rethrow e =
     (case e of
        TypeError_fetch \<Rightarrow>
          APIError 0
            (asc ''Network error. Please check your internet connection and try again.'') True
      | Unexpected \<Rightarrow>
          APIError 0 (asc ''An unexpected error occurred. Please try again.'') True)"

function fetchAPI ::
  "jsstring \<Rightarrow> (nat \<Rightarrow> 'a attempt) \<Rightarrow> jsstring \<Rightarrow> nat \<Rightarrow> (failure + 'a list) \<times> event list" where
  \<comment> \<open>\<open>env retryCount\<close> is what the run with that retry count meets; the result is what
      the promise settles to, with the network calls and delays made on the way\<close>
  "fetchAPI baseURL env endpoint retryCount =
     (let url = baseURL @ endpoint in
      if \<not> online (env retryCount) then
        (Inl (APIError 0
               (asc ''You appear to be offline. Please check your internet connection and try again.'')
               True), [])
      else
        (case outcome (env retryCount) of
           FetchThrows e \<Rightarrow> (Inl (rethrow e), [Fetch url])
         | Responds response \<Rightarrow>
             if status response = 429 then
               (if retryCount < MAX_RETRIES then
                  (let delay = handleRateLimit response retryCount;
                       (result, trace) = fetchAPI baseURL env endpoint (retryCount + 1)
                   in (result, Fetch url # Sleep delay # trace))
                else (Inl (handleAPIError (status response) (statusText response)), [Fetch url]))
             else if \<not> ok response then
               (if status response \<ge> 500 \<and> retryCount < MAX_RETRIES then
                  (let delay = INITIAL_RETRY_DELAY * 2 ^ retryCount;
                       (result, trace) = fetchAPI baseURL env endpoint (retryCount + 1)
                   in (result, Fetch url # Sleep delay # trace))
                else (Inl (handleAPIError (status response) (statusText response)), [Fetch url]))
             else
               (case body response of
                  BodyThrows e \<Rightarrow> (Inl (rethrow e), [Fetch url])
                | Envelope errors data \<Rightarrow>
                    if length errors > 0 then
                      (Inl (APIError 400 (asc ''The API returned an error. Please try again.'') False),
                       [Fetch url])
                    else (Inr data, [Fetch url]))))"
  by pat_completeness auto
termination
  by (relation "measure (\<lambda>(baseURL, env, endpoint, retryCount). MAX_RETRIES - retryCount)") auto

declare fetchAPI.simps [simp del]

subsection \<open>getLineup\<close>

record api_player =
  \<comment> \<open>\<open>item.player\<close> of \<open>LineupResponse.startXI\<close>\<close>
  item_player_id :: int
  item_player_name :: jsstring
  item_player_number :: int
  item_player_pos :: jsstring
  item_player_grid :: jsstring

record lineup_response =
  \<comment> \<open>the fields of \<open>LineupResponse\<close> that are read\<close>
  item_team_id :: int
  item_team_name :: jsstring
  item_formation :: jsstring
  item_startXI :: "api_player list"

record player =
  player_id :: int
  player_name :: jsstring
  player_number :: int
  player_position :: jsstring
  player_gridPosition :: jsnum

record lineup =
  lineup_fixtureId :: int
  lineup_teamId :: int
  lineup_teamName :: jsstring
  lineup_formation :: jsstring
  lineup_startXI :: "player list"

record league_response =
  \<comment> \<open>the fields of \<open>LeagueResponse\<close> that are read: \<open>item.league\<close> and \<open>item.country\<close>\<close>
  item_league_id :: int
  item_league_name :: jsstring
  item_league_type :: jsstring
  item_league_logo :: jsstring
  item_country_name :: jsstring
  item_country_flag :: jsstring

record league =
  league_id :: int
  league_name :: jsstring
  league_type :: jsstring
  league_logo :: jsstring
  league_country :: jsstring
  league_countryFlag :: jsstring

datatype payload = Leagues "league list" | Lineup lineup | Other
  \<comment> \<open>what the cache holds: the result of \<open>getLeagues\<close>, of \<open>getLineup\<close>, or of another
      operation\<close>

definition lineup_key :: "int \<Rightarrow> int \<Rightarrow> jsstring" where
  \<comment> \<open>\<open>`lineup-${fixtureId}-${teamId}`\<close>\<close>
  "lineup_key fixture team = asc ''lineup-'' @ show_int fixture @ asc ''-'' @ show_int team"

definition lineup_endpoint :: "int \<Rightarrow> jsstring" where
  \<comment> \<open>\<open>`/fixtures/lineups?fixture=${fixtureId}`\<close>\<close>
  "lineup_endpoint fixture = asc ''/fixtures/lineups?fixture='' @ show_int fixture"

definition to_player :: "runtime \<Rightarrow> jsstring \<Rightarrow> api_player \<Rightarrow> player" where
  \<comment> \<open>the callback of \<open>teamLineup.startXI.map\<close>\<close>
  "to_player R teamFormation p =
     \<lparr> player_id = item_player_id p, player_name = item_player_name p,
       player_number = item_player_number p, player_position = item_player_pos p,
       player_gridPosition = convertGridToPosition R (item_player_grid p) teamFormation \<rparr>"

definition getLineup ::
  "runtime \<Rightarrow> payload json \<Rightarrow> payload browser \<Rightarrow> jsstring \<Rightarrow> int \<Rightarrow> save_clock \<Rightarrow>
   (nat \<Rightarrow> lineup_response attempt) \<Rightarrow> int \<Rightarrow> int \<Rightarrow> payload store \<Rightarrow>
   (failure + payload) \<times> payload store \<times> event list" where
  \<comment> \<open>\<open>now\<close> is the clock at the cache lookup, \<open>clock\<close> the clock at the write-through;
      \<open>Inl\<close> is a rejected promise\<close>
  "getLineup R J B baseURL now clock env fixture team st =
     (let cacheKey = lineup_key fixture team;
          (cached, st1) = getCacheEntry B now cacheKey st
      in case cached of
           Some hit \<Rightarrow> (Inr hit, st1, [])
         | None \<Rightarrow>
             (case fetchAPI baseURL env (lineup_endpoint fixture) 0 of
                (Inl err, trace) \<Rightarrow> (Inl err, st1, trace)
              | (Inr response, trace) \<Rightarrow>
                  (case find (\<lambda>item. item_team_id item = team) response of
                     None \<Rightarrow>
                       (Inl (Error (asc ''Lineup not found for team '' @ show_int team @
                                    asc '' in fixture '' @ show_int fixture)),
                        st1, trace)
                   | Some teamLineup \<Rightarrow>
                       (let result =
                              \<lparr> lineup_fixtureId = fixture,
                                lineup_teamId = item_team_id teamLineup,
                                lineup_teamName = item_team_name teamLineup,
                                lineup_formation = item_formation teamLineup,
                                lineup_startXI = map (to_player R (item_formation teamLineup))
                                                     (item_startXI teamLineup) \<rparr>
                        in if length (lineup_startXI result) \<noteq> 11 then
                             (Inl (Error (asc ''Invalid lineup: expected 11 players, got '' @
                                          show_int (int (length (lineup_startXI result))))),
                              st1, trace)
                           else
                             (Inr (Lineup result),
                              saveCacheEntry J B clock cacheKey (Lineup result) CACHE_TTL_INDEFINITE st1,
                              trace)))))"

subsection \<open>The calls of getLeagues and getFixtures, and the pending requests\<close>

text \<open>
  An \<open>async\<close> function runs synchronously up to its first \<open>await\<close> that has to wait, and
  the rest runs when the awaited promise settles. Calls of the service made while a
  request is in flight therefore interleave with it at these points only, and the state
  they share is the storage and the map \<open>pendingRequests\<close>. A call is modelled by its
  synchronous part, which ends when \<open>fetchAPI\<close> has checked \<open>navigator.onLine\<close> and
  called \<open>fetch\<close>; \<open>requests\<close> lists the URLs fetched so far. Promises are numbered in
  the order of their creation.
\<close>

record api_service =
  storage :: "payload store"
  pendingRequests :: "nat jsmap"
  promises :: nat
  requests :: "jsstring list"

definition new_api_service :: api_service where
  "new_api_service =
     \<lparr> storage = Map.empty, pendingRequests = [], promises = 0, requests = [] \<rparr>"

datatype answer = Cached payload | Awaits nat
  \<comment> \<open>what the promise returned by a call settles to: the cached data at once, or
      whatever the numbered request promise settles to\<close>

definition start_fetchAPI :: "jsstring \<Rightarrow> bool \<Rightarrow> jsstring \<Rightarrow> api_service \<Rightarrow> api_service" where
  \<comment> \<open>the synchronous part of \<open>fetchAPI(endpoint)\<close>: offline, it throws before any
      network call; online, it calls \<open>fetch(url)\<close>\<close>
  "start_fetchAPI baseURL is_online endpoint svc =
     (if is_online then svc\<lparr>requests := requests svc @ [baseURL @ endpoint]\<rparr> else svc)"

definition getLeagues_call ::
  "payload browser \<Rightarrow> jsstring \<Rightarrow> int \<Rightarrow> bool \<Rightarrow> api_service \<Rightarrow> answer \<times> api_service" where
  "getLeagues_call B baseURL now is_online svc =
     (let cacheKey = asc ''leagues'';
          (cached, st1) = getCacheEntry B now cacheKey (storage svc);
          svc1 = svc\<lparr>storage := st1\<rparr>
      in case cached of
           Some hit \<Rightarrow> (Cached hit, svc1)
         | None \<Rightarrow>
             (case map_of (pendingRequests svc1) cacheKey of
                Some pending \<Rightarrow> (Awaits pending, svc1)
              | None \<Rightarrow>
                  (let requestPromise = promises svc1;
                       svc2 = start_fetchAPI baseURL is_online (asc ''/leagues'')
                                (svc1\<lparr>promises := requestPromise + 1\<rparr>)
                   in (Awaits requestPromise,
                       svc2\<lparr>pendingRequests :=
                              jsmap_set cacheKey requestPromise (pendingRequests svc2)\<rparr>))))"

definition to_league :: "league_response \<Rightarrow> league" where
  \<comment> \<open>the callback of \<open>response.map\<close> in \<open>getLeagues\<close>\<close>
  "to_league item =
     \<lparr> league_id = item_league_id item, league_name = item_league_name item,
       league_type = item_league_type item, league_logo = item_league_logo item,
       league_country = item_country_name item, league_countryFlag = item_country_flag item \<rparr>"

definition getLeagues_settled ::
  "payload json \<Rightarrow> payload browser \<Rightarrow> save_clock \<Rightarrow> failure + league_response list \<Rightarrow> api_service \<Rightarrow>
   (failure + payload) \<times> api_service" where
  \<comment> \<open>the rest of the request promise of \<open>getLeagues\<close>, run when \<open>fetchAPI\<close> has settled
      to \<open>fetched\<close>: the \<open>try\<close> block, then the \<open>finally\<close> block\<close>
  "getLeagues_settled J B clock fetched svc =
     (let cacheKey = asc ''leagues'' in
      case fetched of
        Inl err \<Rightarrow>
          (Inl err, svc\<lparr>pendingRequests := jsmap_delete cacheKey (pendingRequests svc)\<rparr>)
      | Inr response \<Rightarrow>
          (let leagues = map to_league response;
               st1 = saveCacheEntry J B clock cacheKey (Leagues leagues)
                       CACHE_TTL_30_DAYS (storage svc)
           in (Inr (Leagues leagues),
               svc\<lparr>storage := st1,
                    pendingRequests := jsmap_delete cacheKey (pendingRequests svc)\<rparr>)))"

definition fixtures_key :: "int \<Rightarrow> int \<Rightarrow> jsstring" where
  \<comment> \<open>\<open>`fixtures-${teamId}-${season}`\<close>\<close>
  "fixtures_key team season = asc ''fixtures-'' @ show_int team @ asc ''-'' @ show_int season"

definition fixtures_endpoint :: "int \<Rightarrow> int \<Rightarrow> jsstring" where
  \<comment> \<open>\<open>`/fixtures?team=${teamId}&season=${season}`\<close>\<close>
  "fixtures_endpoint team season =
     asc ''/fixtures?team='' @ show_int team @ asc ''&season='' @ show_int season"

definition getFixtures_call ::
  "payload browser \<Rightarrow> jsstring \<Rightarrow> int \<Rightarrow> bool \<Rightarrow> int \<Rightarrow> int \<Rightarrow> api_service \<Rightarrow>
   answer \<times> api_service" where
  \<comment> \<open>\<open>getFixtures\<close> up to \<open>await this.fetchAPI(...)\<close>; it never reads or writes
      \<open>pendingRequests\<close>, and the promise it returns is its own\<close>
  "getFixtures_call B baseURL now is_online team season svc =
     (let cacheKey = fixtures_key team season;
          (cached, st1) = getCacheEntry B now cacheKey (storage svc);
          svc1 = svc\<lparr>storage := st1\<rparr>
      in case cached of
           Some hit \<Rightarrow> (Cached hit, svc1)
         | None \<Rightarrow>
             (let ownPromise = promises svc1;
                  svc2 = start_fetchAPI baseURL is_online (fixtures_endpoint team season)
                           (svc1\<lparr>promises := ownPromise + 1\<rparr>)
              in (Awaits ownPromise, svc2)))"

section \<open>A runtime to compute with\<close>

text \<open>
  To run the functions on concrete names a runtime is needed. This one is an excerpt of
  the real one. Its \<open>NFD\<close> and \<open>toLowerCase\<close> are exact on every string over Basic
  Latin, U+00E9 and U+00ED (e and i with acute), U+00F8 (o with stroke), U+0301
  (combining acute), U+034F (combining grapheme joiner), the Hebrew letter U+05DC and the
  Hebrew points U+05B4 and U+05B7; its \<open>Number\<close> is exact on strings of decimal digits. The two tables are
  excerpts of the Unicode Character Database: canonical decompositions, and canonical
  combining classes (0 for every starter, among them the joiner).
\<close>

definition decomposition :: "16 word \<Rightarrow> jsstring" where
  "decomposition c =
     (if c = 0xE9 then [0x65, 0x0301]
      else if c = 0xED then [0x69, 0x0301]
      else [c])"

definition ccc :: "16 word \<Rightarrow> nat" where
  "ccc c =
     (if c = 0x0301 then 230
      else if c = 0x05B4 then 14
      else if c = 0x05B7 then 17
      else 0)"

fun place_mark :: "16 word \<Rightarrow> jsstring \<Rightarrow> jsstring" where
  \<comment> \<open>canonical ordering, one character at a time: a mark moves in front of the marks
      of a higher class that precede it; the text so far is held reversed\<close>
  "place_mark c [] = [c]"
| "place_mark c (p # done) =
     (if ccc c \<noteq> 0 \<and> ccc c < ccc p then p # place_mark c done else c # p # done)"

definition canonical_order :: "jsstring \<Rightarrow> jsstring" where
  "canonical_order s = rev (foldl (\<lambda>done c. place_mark c done) [] s)"

definition nfd_excerpt :: "jsstring \<Rightarrow> jsstring" where
  "nfd_excerpt s = canonical_order (concat (map decomposition s))"

definition lower_ascii :: "16 word \<Rightarrow> 16 word" where
  "lower_ascii c = (if 0x41 \<le> c \<and> c \<le> 0x5A then c + 0x20 else c)"

definition number_of_digits :: "jsstring \<Rightarrow> jsnum" where
  \<comment> \<open>\<open>Number\<close> on a string of decimal digits (the empty string reads as 0)\<close>
  "number_of_digits s = (if list_all is_digit s then Num (digits_value s) else NaN)"

definition excerpt_runtime :: runtime where
  "excerpt_runtime =
     \<lparr> NFD = nfd_excerpt, toLowerCase = map lower_ascii, Number = number_of_digits \<rparr>"

subsection \<open>Predicates of the statements\<close>

definition is_ascii :: "jsstring \<Rightarrow> bool" where
  "is_ascii s \<longleftrightarrow> list_all (\<lambda>c. c < 0x80) s"

definition memo_ok :: "(jsstring \<Rightarrow> jsstring) \<Rightarrow> memo \<Rightarrow> bool" where
  \<comment> \<open>every entry of a memoization map is the value computed for its key\<close>
  "memo_ok f m \<longleftrightarrow> list_all (\<lambda>(k, v). v = f k) m"

definition caches_ok :: "runtime \<Rightarrow> name_service \<Rightarrow> bool" where
  "caches_ok R svc \<longleftrightarrow>
     memo_ok (normalized R) (normalizeCache svc) \<and> memo_ok (hint_of R) (hintCache svc)"

subsection \<open>Sample inputs\<close>

definition roomy :: "'d browser" where
  \<comment> \<open>a browser whose storage accepts every write\<close>
  "roomy st k v = Stored"

definition always_500 :: "nat \<Rightarrow> 'a attempt" where
  \<comment> \<open>a server that answers every attempt with status 500\<close>
  "always_500 k =
     \<lparr> online = True,
       outcome = Responds \<lparr> status = 500, statusText = asc ''Internal Server Error'',
                             retryAfter = None, body = BodyThrows Unexpected \<rparr> \<rparr>"

definition replies :: "'a list \<Rightarrow> nat \<Rightarrow> 'a attempt" where
  \<comment> \<open>a server that answers every attempt with status 200 and the given \<open>response\<close> array\<close>
  "replies items k =
     \<lparr> online = True,
       outcome = Responds \<lparr> status = 200, statusText = asc ''OK'',
                             retryAfter = None, body = Envelope [] items \<rparr> \<rparr>"

definition sample_player :: api_player where
  "sample_player =
     \<lparr> item_player_id = 882, item_player_name = asc ''David de Gea'', item_player_number = 1,
       item_player_pos = asc ''G'', item_player_grid = asc ''1:1'' \<rparr>"

definition sample_lineup :: "nat \<Rightarrow> lineup_response" where
  \<comment> \<open>the entry of team 33 with \<open>n\<close> starting players\<close>
  "sample_lineup n =
     \<lparr> item_team_id = 33, item_team_name = asc ''Manchester United'',
       item_formation = asc ''4-4-2'', item_startXI = replicate n sample_player \<rparr>"

definition fills_up :: "'d browser" where
  \<comment> \<open>a browser whose storage is full as soon as the entry "leagues" is in it\<close>
  "fills_up st k v =
     (if st (CACHE_PREFIX @ asc ''leagues'') = None then Stored else QuotaExceededError)"

definition crowded :: "'d browser" where
  \<comment> \<open>a browser that has room for the probe only, as long as the entry "old" is in it\<close>
  "crowded st k v =
     (if k = testKey \<or> st (CACHE_PREFIX @ asc ''old'') = None then Stored
      else QuotaExceededError)"

definition stale_store :: "nat store" where
  \<comment> \<open>a store that holds the entry "old", written at time 0 with a time-to-live of 10\<close>
  "stale_store = Map.empty(CACHE_PREFIX @ asc ''old'' \<mapsto> CacheJSON (Some 1) 0 10)"

definition late_clock :: save_clock where
  "late_clock = \<lparr> at_write = 1000, at_clear = 1001, at_retry = 1002 \<rparr>"

definition json_number :: "jsnum json" where
  \<comment> \<open>\<open>JSON.parse(JSON.stringify(n))\<close> for a number \<open>n\<close>: \<open>NaN\<close> comes back as \<open>null\<close>\<close>
  "json_number n = (case n of NaN \<Rightarrow> None | Num i \<Rightarrow> Some (Num i))"

definition sample_clock :: save_clock where
  "sample_clock = \<lparr> at_write = 1000, at_clear = 1000, at_retry = 1000 \<rparr>"

definition api_base :: jsstring where
  "api_base = asc ''https://v3.football.api-sports.io''"

section \<open>Properties of the name matching service\<close>

subsection \<open>The memoization maps never change a result\<close>

lemma memo_ok_lookup: "memo_ok f m \<Longrightarrow> map_of m k = Some v \<Longrightarrow> v = f k"
  by (induction m) (auto simp: memo_ok_def split: if_splits)

lemma memo_ok_set: "memo_ok f m \<Longrightarrow> memo_ok f (jsmap_set k (f k) m)"
  by (induction m) (auto simp: memo_ok_def)

lemma memo_ok_delete: "memo_ok f m \<Longrightarrow> memo_ok f (jsmap_delete k m)"
  by (induction m) (auto simp: memo_ok_def jsmap_delete_def)

lemma memo_ok_limit_size: "memo_ok f m \<Longrightarrow> memo_ok f (limit_size m)"
  by (auto simp: limit_size_def memo_ok_delete split: list.splits)

lemma caches_ok_new_service: "caches_ok R new_service"
  by (simp add: caches_ok_def new_service_def memo_ok_def)

lemma normalize_value:
  "caches_ok R svc \<Longrightarrow> fst (normalize R name svc) = normalized R name"
  by (auto simp: normalize_def caches_ok_def dest: memo_ok_lookup split: option.splits)

lemma normalize_caches_ok:
  "caches_ok R svc \<Longrightarrow> caches_ok R (snd (normalize R name svc))"
  by (auto simp: normalize_def caches_ok_def memo_ok_limit_size memo_ok_set split: option.splits)

lemma generateLetterHint_value:
  "caches_ok R svc \<Longrightarrow> fst (generateLetterHint R name svc) = hint_of R name"
  by (auto simp: generateLetterHint_def caches_ok_def dest: memo_ok_lookup split: option.splits)

lemma generateLetterHint_caches_ok:
  "caches_ok R svc \<Longrightarrow> caches_ok R (snd (generateLetterHint R name svc))"
  by (auto simp: generateLetterHint_def caches_ok_def memo_ok_limit_size memo_ok_set split: option.splits)

lemma normalize_pair:
  "caches_ok R svc \<Longrightarrow> \<exists>svc'. normalize R name svc = (normalized R name, svc') \<and> caches_ok R svc'"
  using normalize_value [of R svc name] normalize_caches_ok [of R svc name]
  by (cases "normalize R name svc") auto

lemma split_ws_nonempty: "split_ws s \<noteq> []"
proof (induction s)
  case Nil
  then show ?case by simp
next
  case (Cons c cs)
  then show ?case
    by (subst split_ws.simps(2)) (auto split: list.split)
qed

subsection \<open>isMatch\<close>

lemma isMatch_caches_ok:
  assumes "caches_ok R svc"
  shows "caches_ok R (snd (isMatch R guess actualName svc))"
proof -
  let ?ln = "getLastName R actualName"
  let ?final = "split_ws ?ln ! (length (split_ws ?ln) - 1)"
  obtain svc1 where n1: "normalize R guess svc = (normalized R guess, svc1)" and ok1: "caches_ok R svc1"
    using normalize_pair [OF assms] by blast
  obtain svc2 where n2: "normalize R ?ln svc1 = (normalized R ?ln, svc2)" and ok2: "caches_ok R svc2"
    using normalize_pair [OF ok1] by blast
  obtain svc3 where n3: "normalize R ?final svc2 = (normalized R ?final, svc3)" and ok3: "caches_ok R svc3"
    using normalize_pair [OF ok2] by blast
  show ?thesis
    unfolding isMatch_def Let_def n1 n2 n3 prod.case using ok2 ok3 by simp
qed

text \<open>
  Claim C6. On a service whose memoization maps hold only values that \<open>normalize\<close> and
  \<open>generateLetterHint\<close> computed (every service reached from \<open>new_service\<close> is one:
  \<open>caches_ok_new_service\<close>, \<open>normalize_caches_ok\<close>, \<open>isMatch_caches_ok\<close>,
  \<open>generateLetterHint_caches_ok\<close>),
  \<open>normalize\<close> returns \<open>normalized R\<close> (\<open>normalize_value\<close>), and
  \<open>isMatch(guess, actualName)\<close> is true if and only if the normalized guess equals the
  normalized last name, or the last name has more than one token and the normalized guess
  equals its normalized final token. Nothing else matches: no first name, no substring.
\<close>

theorem isMatch_iff:
  assumes "caches_ok R svc"
  shows "fst (isMatch R guess actualName svc) \<longleftrightarrow>
           normalized R guess = normalized R (getLastName R actualName) \<or>
           (length (split_ws (getLastName R actualName)) > 1 \<and>
            normalized R guess = normalized R (last (split_ws (getLastName R actualName))))"
proof -
  let ?ln = "getLastName R actualName"
  obtain svc1 where n1: "normalize R guess svc = (normalized R guess, svc1)" and ok1: "caches_ok R svc1"
    using normalize_pair [OF assms] by blast
  obtain svc2 where n2: "normalize R ?ln svc1 = (normalized R ?ln, svc2)" and ok2: "caches_ok R svc2"
    using normalize_pair [OF ok1] by blast
  obtain svc3 where n3: "normalize R (last (split_ws ?ln)) svc2 = (normalized R (last (split_ws ?ln)), svc3)"
    using normalize_pair [OF ok2] by blast
  have nonempty: "split_ws ?ln \<noteq> []" 
    by (rule split_ws_nonempty)
  have l: "split_ws ?ln ! (length (split_ws ?ln) - 1) = last (split_ws ?ln)"
    using nonempty by (simp add: last_conv_nth)
  show ?thesis
    unfolding isMatch_def Let_def n1 n2 prod.case l n3 by simp
qed

theorem isMatch_iff_witness:
  "caches_ok excerpt_runtime new_service \<and>
   fst (isMatch excerpt_runtime (asc ''ligt'') (asc ''Matthijs de Ligt'') new_service) \<and>
   fst (isMatch excerpt_runtime (asc ''de ligt'') (asc ''Matthijs de Ligt'') new_service) \<and>
   \<not> fst (isMatch excerpt_runtime (asc ''matthijs'') (asc ''Matthijs de Ligt'') new_service)"
proof -
  let ?X = excerpt_runtime
  let ?a = "asc ''Matthijs de Ligt''"
  have ok: "caches_ok ?X new_service" by (rule caches_ok_new_service)
  have 1: "length (split_ws (getLastName ?X ?a)) > 1 \<and>
           normalized ?X (asc ''ligt'') = normalized ?X (last (split_ws (getLastName ?X ?a)))"
    by code_simp
  have 2: "normalized ?X (asc ''de ligt'') = normalized ?X (getLastName ?X ?a)"
    by code_simp
  have 3: "\<not> (normalized ?X (asc ''matthijs'') = normalized ?X (getLastName ?X ?a) \<or>
               (length (split_ws (getLastName ?X ?a)) > 1 \<and>
                normalized ?X (asc ''matthijs'') = normalized ?X (last (split_ws (getLastName ?X ?a)))))"
    by code_simp
  have m1: "fst (isMatch ?X (asc ''ligt'') ?a new_service)"
    using isMatch_iff [OF ok, of "asc ''ligt''" ?a] 1 by blast
  have m2: "fst (isMatch ?X (asc ''de ligt'') ?a new_service)"
    using isMatch_iff [OF ok, of "asc ''de ligt''" ?a] 2 by blast
  have m3: "\<not> fst (isMatch ?X (asc ''matthijs'') ?a new_service)"
    using isMatch_iff [OF ok, of "asc ''matthijs''" ?a] 3 by blast
  show ?thesis using ok m1 m2 m3 by blast
qed

subsection \<open>generateLetterHint\<close>

lemma hint_char_cases:
  "hint_char c = (if c = 0x2D \<or> c = 0x27 \<or> c = 0x2E then c else 0x5F)"
  unfolding hint_char_def by (cases "c = 0x2D"; cases "c = 0x27"; cases "c = 0x2E") simp_all

text \<open>
  Claim C7. The hint has the length of the last name, and at every index it shows the
  character of the last name when that is a hyphen, an apostrophe or a period, and an
  underscore otherwise (also for the spaces inside a last name of several tokens).
\<close>

theorem generateLetterHint_shape:
  assumes "caches_ok R svc"
  shows "length (fst (generateLetterHint R name svc)) = length (getLastName R name) \<and>
         (\<forall>i < length (getLastName R name).
            fst (generateLetterHint R name svc) ! i =
              (if getLastName R name ! i = 0x2D \<or> getLastName R name ! i = 0x27 \<or>
                  getLastName R name ! i = 0x2E
               then getLastName R name ! i else 0x5F))"
proof -
  have v: "fst (generateLetterHint R name svc) = map hint_char (getLastName R name)"
    using assms by (simp add: generateLetterHint_value hint_of_def)
  show ?thesis
    unfolding v
  proof (intro conjI allI impI)
    show "length (map hint_char (getLastName R name)) = length (getLastName R name)"
      by simp
  next
    fix i assume "i < length (getLastName R name)"
    then show "map hint_char (getLastName R name) ! i =
              (if getLastName R name ! i = 0x2D \<or> getLastName R name ! i = 0x27 \<or>
                  getLastName R name ! i = 0x2E
               then getLastName R name ! i else 0x5F)"
      by (simp only: nth_map hint_char_cases)
  qed
qed

theorem generateLetterHint_shape_witness:
  "caches_ok excerpt_runtime new_service \<and>
   length (fst (generateLetterHint excerpt_runtime (asc ''Conor O'' @ [0x27] @ asc ''Brien'') new_service)) = 7 \<and>
   fst (generateLetterHint excerpt_runtime (asc ''Conor O'' @ [0x27] @ asc ''Brien'') new_service) ! 1 = 0x27 \<and>
   fst (generateLetterHint excerpt_runtime (asc ''Conor O'' @ [0x27] @ asc ''Brien'') new_service) ! 0 = 0x5F"
proof -
  let ?X = excerpt_runtime
  let ?n = "asc ''Conor O'' @ [0x27] @ asc ''Brien''"
  have ok: "caches_ok ?X new_service" by (rule caches_ok_new_service)
  have ln: "getLastName ?X ?n = asc ''O'' @ [0x27] @ asc ''Brien''" by code_simp
  have len: "length (asc ''O'' @ [0x27 :: 16 word] @ asc ''Brien'') = 7" by code_simp
  have c1: "(asc ''O'' @ [0x27 :: 16 word] @ asc ''Brien'') ! 1 = 0x27" by code_simp
  have c0: "(asc ''O'' @ [0x27 :: 16 word] @ asc ''Brien'') ! 0 = 0x4F" by code_simp
  note shape = generateLetterHint_shape [OF ok, of ?n, unfolded ln len]
  from shape have "length (fst (generateLetterHint ?X ?n new_service)) = 7" by blast
  moreover from shape have "fst (generateLetterHint ?X ?n new_service) ! 1 = 0x27"
    using c1 by simp
  moreover from shape have "fst (generateLetterHint ?X ?n new_service) ! 0 = 0x5F"
    using c0 by simp
  ultimately show ?thesis using ok by blast
qed

subsection \<open>normalize twice\<close>

lemma ascii_not_mark: "(c :: 16 word) < 0x80 \<Longrightarrow> \<not> (0x0300 \<le> c \<and> c \<le> 0x036F)"
  by (simp add: word_le_nat_alt word_less_nat_alt)

lemma upper_shift:
  assumes "(0x41 :: 16 word) \<le> c" and "c \<le> 0x5A"
  shows "unat (c + 0x20) = unat c + 32"
proof -
  have "unat c \<le> 90" using assms(2) by (simp add: word_le_nat_alt)
  then have "unat c + unat (0x20 :: 16 word) < 2 ^ LENGTH(16)" by simp
  then have "unat (c + 0x20) = unat c + unat (0x20 :: 16 word)"
    by (simp only: unat_add_lem)
  then show ?thesis by simp
qed

lemma lower_ascii_twice: "lower_ascii (lower_ascii c) = lower_ascii c"
proof (cases "0x41 \<le> c \<and> c \<le> 0x5A")
  case True
  then have "unat (c + 0x20) = unat c + 32" by (simp add: upper_shift)
  moreover have "65 \<le> unat c" using True by (simp add: word_le_nat_alt)
  ultimately have "\<not> (c + 0x20 \<le> 0x5A)" by (simp add: word_le_nat_alt)
  then show ?thesis by (simp add: lower_ascii_def)
next
  case False
  then show ?thesis by (simp add: lower_ascii_def)
qed

lemma lower_ascii_ws: "is_ws (lower_ascii c) = is_ws c"
proof (cases "0x41 \<le> c \<and> c \<le> 0x5A")
  case True
  then have s: "unat (c + 0x20) = unat c + 32" by (simp add: upper_shift)
  have b: "65 \<le> unat c" "unat c \<le> 90" using True by (simp_all add: word_le_nat_alt)
  have "\<not> is_ws c" using b by (simp add: is_ws_def word_le_nat_alt word_unat_eq_iff)
  moreover have "\<not> is_ws (c + 0x20)" using b s by (simp add: is_ws_def word_le_nat_alt word_unat_eq_iff)
  ultimately show ?thesis using True by (simp add: lower_ascii_def)
next
  case False
  then have "lower_ascii c = c" by (auto simp: lower_ascii_def)
  then show ?thesis by simp
qed

lemma lower_ascii_ascii: "c < 0x80 \<Longrightarrow> lower_ascii c < 0x80"
proof (cases "0x41 \<le> c \<and> c \<le> 0x5A")
  case True
  then have s: "unat (c + 0x20) = unat c + 32" by (simp add: upper_shift)
  have b: "unat c \<le> 90" using True by (simp_all add: word_le_nat_alt)
  have "c + 0x20 < 0x80" using b s by (simp add: word_less_nat_alt)
  then show ?thesis using True by (simp add: lower_ascii_def)
next
  case False
  then have "lower_ascii c = c" by (auto simp: lower_ascii_def)
  moreover assume "c < 0x80"
  ultimately show ?thesis by simp
qed

lemma strip_marks_ascii: "is_ascii s \<Longrightarrow> strip_marks s = s"
  unfolding is_ascii_def strip_marks_def
  by (induction s) (simp_all add: ascii_not_mark)


lemma trim_map_lower: "trim (map lower_ascii s) = map lower_ascii (trim s)"
proof -
  have c: "is_ws \<circ> lower_ascii = is_ws" by (rule ext) (simp add: lower_ascii_ws)
  show ?thesis by (simp add: trim_def dropWhile_map rev_map c)
qed

lemma is_ascii_trim: "is_ascii s \<Longrightarrow> is_ascii (trim s)"
proof -
  assume a: "is_ascii s"
  have "set (trim s) \<subseteq> set s"
    by (auto simp: trim_def dest!: set_dropWhileD)
  then show ?thesis using a by (auto simp: is_ascii_def list_all_iff)
qed

lemma is_ascii_map_lower: "is_ascii s \<Longrightarrow> is_ascii (map lower_ascii s)"
  by (induction s) (simp_all add: is_ascii_def lower_ascii_ascii)

lemma normalized_ascii:
  assumes nfd: "\<forall>t. is_ascii t \<longrightarrow> NFD R t = t"
    and low: "\<forall>t. is_ascii t \<longrightarrow> toLowerCase R t = map lower_ascii t"
    and s: "is_ascii s"
  shows "normalized R s = map lower_ascii (trim s)"
  using assms by (simp add: normalized_def strip_marks_ascii trim_map_lower)

lemma normalized_stripped_ascii:
  assumes low: "\<forall>t. is_ascii t \<longrightarrow> toLowerCase R t = map lower_ascii t"
    and s: "is_ascii (strip_marks (NFD R s))"
  shows "normalized R s = map lower_ascii (trim (strip_marks (NFD R s)))"
  using assms by (simp add: normalized_def trim_map_lower)



text \<open>
  Latin names meet the three conditions of \<open>normalized_stable\<close>: when the NFD form of
  \<open>s\<close> without its marks U+0300 to U+036F is made of Basic Latin characters, its
  normalized form is in NFD, has no such mark and is in lower case, for every runtime
  whose NFD leaves ASCII strings unchanged and whose \<open>toLowerCase\<close> maps A to Z onto a to
  z on them.
\<close>

lemma normalized_latin_stable:
  assumes nfd: "\<forall>t. is_ascii t \<longrightarrow> NFD R t = t"
    and low: "\<forall>t. is_ascii t \<longrightarrow> toLowerCase R t = map lower_ascii t"
    and s: "is_ascii (strip_marks (NFD R s))"
  shows "NFD R (normalized R s) = normalized R s"
    and "strip_marks (normalized R s) = normalized R s"
    and "toLowerCase R (normalized R s) = normalized R s"
proof -
  let ?r = "strip_marks (NFD R s)"
  have 1: "normalized R s = map lower_ascii (trim ?r)"
    using low s by (rule normalized_stripped_ascii)
  have a: "is_ascii (map lower_ascii (trim ?r))"
    using s by (simp add: is_ascii_trim is_ascii_map_lower)
  show "NFD R (normalized R s) = normalized R s"
    using nfd a by (simp add: 1)
  show "strip_marks (normalized R s) = normalized R s"
    using a by (simp add: 1 strip_marks_ascii)
  show "toLowerCase R (normalized R s) = normalized R s"
    using low a by (simp add: 1 lower_ascii_twice)
qed

lemma place_mark_starter: "ccc c = 0 \<Longrightarrow> place_mark c done = c # done"
  by (cases "done") simp_all

lemma ascii_ccc: "c < 0x80 \<Longrightarrow> ccc c = 0"
  by (auto simp: ccc_def)

lemma ascii_decomposition: "c < 0x80 \<Longrightarrow> decomposition c = [c]"
  by (auto simp: decomposition_def)

lemma foldl_place_mark_ascii:
  "is_ascii t \<Longrightarrow> foldl (\<lambda>done c. place_mark c done) acc t = rev t @ acc"
  by (induction t arbitrary: acc) (simp_all add: is_ascii_def place_mark_starter ascii_ccc)

lemma nfd_excerpt_ascii: "is_ascii t \<Longrightarrow> nfd_excerpt t = t"
proof -
  assume a: "is_ascii t"
  then have "concat (map decomposition t) = t"
    by (induction t) (simp_all add: is_ascii_def ascii_decomposition)
  then show ?thesis using a by (simp add: nfd_excerpt_def canonical_order_def foldl_place_mark_ascii)
qed



subsection \<open>normalize is not idempotent on every string\<close>


subsection \<open>getLastName\<close>

text \<open>
  Claim C3 says that a name whose second-to-last and third-to-last tokens are both
  prefixes gives its last three tokens. The test of the second-to-last token returns
  first, with two tokens, so the disjunct \<open>prefixes.includes(secondToLast)\<close> of the
  three-token test is never reached: "Micky van de Ven" gives "de Ven", not
  "van de Ven".
\<close>

theorem getLastName_two_prefixes:
  "getLastName excerpt_runtime (asc ''Micky van de Ven'') = asc ''de Ven''"
  by code_simp

section \<open>Properties of the storage service\<close>

lemma cache_key_not_testKey: "CACHE_PREFIX @ key \<noteq> testKey"
proof -
  have "hd (CACHE_PREFIX @ key) = 0x63" by (simp add: CACHE_PREFIX_def asc_def)
  moreover have "hd testKey = 0x5F" by (simp add: testKey_def asc_def)
  ultimately show ?thesis by auto
qed

lemma getCacheEntry_present:
  assumes "st (CACHE_PREFIX @ key) = Some (CacheJSON d t0 T)" and "fst (isAvailable B st)"
  shows "getCacheEntry B t key st =
           (if t - t0 \<ge> T then (None, st(testKey := None, CACHE_PREFIX @ key := None))
            else (d, st(testKey := None)))"
  using assms cache_key_not_testKey [of key]
  by (auto simp: getCacheEntry_def isAvailable_def split: set_result.splits)

lemma saveCacheEntry_accepted:
  assumes "B st testKey Garbage = Stored"
    and "B (st(testKey := None)) (CACHE_PREFIX @ key) (CacheJSON (J d) (at_write clock) T) = Stored"
  shows "saveCacheEntry J B clock key d T st =
           (st(testKey := None))(CACHE_PREFIX @ key \<mapsto> CacheJSON (J d) (at_write clock) T)"
  using assms by (simp add: saveCacheEntry_def isAvailable_def)

lemma saveCacheEntry_retried:
  assumes "B st testKey Garbage = Stored"
    and "B (st(testKey := None)) (CACHE_PREFIX @ key) (CacheJSON (J d) (at_write clock) T) =
           QuotaExceededError"
    and "B (clearExpiredCache B (at_clear clock) (st(testKey := None))) (CACHE_PREFIX @ key)
           (CacheJSON (J d) (at_retry clock) T) = Stored"
  shows "saveCacheEntry J B clock key d T st =
           (clearExpiredCache B (at_clear clock) (st(testKey := None)))
             (CACHE_PREFIX @ key \<mapsto> CacheJSON (J d) (at_retry clock) T)"
  using assms by (simp add: saveCacheEntry_def isAvailable_def Let_def)

lemma saveCacheEntry_refused:
  "B st testKey Garbage \<noteq> Stored \<Longrightarrow> saveCacheEntry J B clock key d T st = st"
  by (simp add: saveCacheEntry_def isAvailable_def split: set_result.splits)

text \<open>
  Claim C9 as stated fails: \<open>getCacheEntry\<close> first asks \<open>isAvailable\<close>, which writes a
  probe. In a browser whose storage is full once the entry is in it, the entry saved at
  \<open>t0 = 1000\<close> with \<open>T = 500\<close> is there, but the lookup at \<open>t0 + T - 1\<close> returns
  \<open>null\<close>, and the lookup at \<open>t0 + T + 1\<close> does not remove it.
\<close>

theorem getCacheEntry_full_counterexample:
  "saveCacheEntry Some fills_up sample_clock (asc ''leagues'') (7 :: nat) 500 Map.empty
      (CACHE_PREFIX @ asc ''leagues'') = Some (CacheJSON (Some 7) 1000 500) \<and>
   fst (getCacheEntry fills_up 1499 (asc ''leagues'')
      (saveCacheEntry Some fills_up sample_clock (asc ''leagues'') (7 :: nat) 500 Map.empty)) = None \<and>
   snd (getCacheEntry fills_up 1501 (asc ''leagues'')
      (saveCacheEntry Some fills_up sample_clock (asc ''leagues'') (7 :: nat) 500 Map.empty))
      (CACHE_PREFIX @ asc ''leagues'') = Some (CacheJSON (Some 7) 1000 500)"
  using cache_key_not_testKey [of "asc ''leagues''"]
  by (simp add: saveCacheEntry_def getCacheEntry_def isAvailable_def fills_up_def sample_clock_def)

text \<open>
  The data that come back are the data as JSON keeps them: an entry saved with the data
  \<open>NaN\<close> is read back with \<open>null\<close>, before it expires too.
\<close>

lemma getCacheEntry_NaN:
  "fst (getCacheEntry roomy 1499 (asc ''leagues'')
      (saveCacheEntry json_number roomy sample_clock (asc ''leagues'') NaN 500 Map.empty)) = None"
  using cache_key_not_testKey [of "asc ''leagues''"]
  by (simp add: saveCacheEntry_def getCacheEntry_def isAvailable_def roomy_def sample_clock_def
                json_number_def)

text \<open>
  Claim C9, amended. Let \<open>saveCacheEntry\<close> run while the storage is available, and let
  the browser accept its write, either at once (then \<open>t0\<close> is the clock reading of the
  first write) or after the quota error and \<open>clearExpiredCache\<close> (then \<open>t0\<close> is the clock
  reading of the second write); let the data be data that JSON gives back unchanged. Then
  a lookup at time \<open>t\<close> at which the storage is available returns the data if and only if
  \<open>t - t0 < T\<close>, and then leaves the entry in place; at or after \<open>t0 + T\<close> it reports
  absence and has removed the entry.
\<close>

theorem saved_entry_ttl:
  assumes "B st testKey Garbage = Stored"
    and "(B (st(testKey := None)) (CACHE_PREFIX @ key) (CacheJSON (J d) (at_write clock) T) = Stored \<and>
          t0 = at_write clock) \<or>
         (B (st(testKey := None)) (CACHE_PREFIX @ key) (CacheJSON (J d) (at_write clock) T) =
            QuotaExceededError \<and>
          B (clearExpiredCache B (at_clear clock) (st(testKey := None))) (CACHE_PREFIX @ key)
            (CacheJSON (J d) (at_retry clock) T) = Stored \<and>
          t0 = at_retry clock)"
    and "J d = Some d"
    and "fst (isAvailable B (saveCacheEntry J B clock key d T st))"
  shows "(fst (getCacheEntry B t key (saveCacheEntry J B clock key d T st)) = Some d \<longleftrightarrow> t - t0 < T) \<and>
         (t - t0 < T \<longrightarrow>
            snd (getCacheEntry B t key (saveCacheEntry J B clock key d T st)) (CACHE_PREFIX @ key) =
              Some (CacheJSON (Some d) t0 T)) \<and>
         (t0 + T \<le> t \<longrightarrow>
            fst (getCacheEntry B t key (saveCacheEntry J B clock key d T st)) = None \<and>
            snd (getCacheEntry B t key (saveCacheEntry J B clock key d T st)) (CACHE_PREFIX @ key) = None)"
proof -
  let ?st1 = "saveCacheEntry J B clock key d T st"
  have saved: "?st1 (CACHE_PREFIX @ key) = Some (CacheJSON (Some d) t0 T)"
    using assms(2)
  proof
    assume "B (st(testKey := None)) (CACHE_PREFIX @ key) (CacheJSON (J d) (at_write clock) T) = Stored \<and>
            t0 = at_write clock"
    then show ?thesis
      using saveCacheEntry_accepted [of B st key J d clock T] assms(1,3) by simp
  next
    assume "B (st(testKey := None)) (CACHE_PREFIX @ key) (CacheJSON (J d) (at_write clock) T) =
              QuotaExceededError \<and>
            B (clearExpiredCache B (at_clear clock) (st(testKey := None))) (CACHE_PREFIX @ key)
              (CacheJSON (J d) (at_retry clock) T) = Stored \<and>
            t0 = at_retry clock"
    then show ?thesis
      using saveCacheEntry_retried [of B st key J d clock T] assms(1,3) by simp
  qed
  show ?thesis
    using cache_key_not_testKey [of key] saved
    by (simp add: getCacheEntry_present [OF saved assms(4)])
qed

theorem saved_entry_ttl_witness:
  "roomy (Map.empty :: nat store) testKey Garbage = Stored \<and>
   roomy ((Map.empty :: nat store)(testKey := None)) (CACHE_PREFIX @ asc ''leagues'')
     (CacheJSON (Some 7) (at_write sample_clock) 500) = Stored \<and>
   at_write sample_clock = 1000 \<and>
   fst (isAvailable roomy
      (saveCacheEntry Some roomy sample_clock (asc ''leagues'') (7 :: nat) 500 Map.empty)) \<and>
   crowded (stale_store(testKey := None)) (CACHE_PREFIX @ asc ''leagues'')
     (CacheJSON (Some 7) (at_write late_clock) 500) = QuotaExceededError \<and>
   at_retry late_clock = 1002 \<and>
   fst (getCacheEntry roomy 1499 (asc ''leagues'')
      (saveCacheEntry Some roomy sample_clock (asc ''leagues'') (7 :: nat) 500 Map.empty)) = Some 7 \<and>
   fst (getCacheEntry roomy 1501 (asc ''leagues'')
      (saveCacheEntry Some roomy sample_clock (asc ''leagues'') (7 :: nat) 500 Map.empty)) = None \<and>
   snd (getCacheEntry roomy 1501 (asc ''leagues'')
      (saveCacheEntry Some roomy sample_clock (asc ''leagues'') (7 :: nat) 500 Map.empty))
      (CACHE_PREFIX @ asc ''leagues'') = None \<and>
   fst (getCacheEntry crowded 1501 (asc ''leagues'')
      (saveCacheEntry Some crowded late_clock (asc ''leagues'') (7 :: nat) 500 stale_store)) = Some 7 \<and>
   fst (getCacheEntry crowded 1503 (asc ''leagues'')
      (saveCacheEntry Some crowded late_clock (asc ''leagues'') (7 :: nat) 500 stale_store)) = None"
proof -
  let ?k = "asc ''leagues''"
  let ?st = "saveCacheEntry Some roomy sample_clock ?k (7 :: nat) 500 Map.empty"
  let ?st2 = "saveCacheEntry Some crowded late_clock ?k (7 :: nat) 500 stale_store"
  have p: "roomy (Map.empty :: nat store) testKey Garbage = Stored"
    by (simp add: roomy_def)
  have w: "(roomy ((Map.empty :: nat store)(testKey := None)) (CACHE_PREFIX @ ?k)
              (CacheJSON (Some 7) (at_write sample_clock) 500) = Stored \<and>
            1000 = at_write sample_clock) \<or>
           (roomy ((Map.empty :: nat store)(testKey := None)) (CACHE_PREFIX @ ?k)
              (CacheJSON (Some 7) (at_write sample_clock) 500) = QuotaExceededError \<and>
            roomy (clearExpiredCache roomy (at_clear sample_clock) ((Map.empty :: nat store)(testKey := None)))
              (CACHE_PREFIX @ ?k) (CacheJSON (Some 7) (at_retry sample_clock) 500) = Stored \<and>
            1000 = at_retry sample_clock)"
    by (simp add: roomy_def sample_clock_def)
  have a: "fst (isAvailable roomy ?st)"
    by (simp add: isAvailable_def roomy_def)
  note ttl = saved_entry_ttl [of roomy "Map.empty :: nat store" ?k Some 7 sample_clock 500 1000,
      OF p w refl a]
  have old: "CACHE_PREFIX @ asc ''old'' \<noteq> testKey" "CACHE_PREFIX @ ?k \<noteq> testKey"
    by (rule cache_key_not_testKey)+
  have ne: "CACHE_PREFIX @ asc ''old'' \<noteq> CACHE_PREFIX @ ?k"
    by (simp add: asc_def)
  have sw: "startsWith (CACHE_PREFIX @ asc ''old'') CACHE_PREFIX"
    by (simp add: startsWith_def)
  have cleared: "clearExpiredCache crowded (at_clear late_clock) (stale_store(testKey := None))
                   (CACHE_PREFIX @ asc ''old'') = None"
    using old ne sw
    by (simp add: clearExpiredCache_def isAvailable_def crowded_def stale_store_def late_clock_def
                  expired_def)
  have p2: "crowded stale_store testKey Garbage = Stored"
    by (simp add: crowded_def)
  have w2: "(crowded (stale_store(testKey := None)) (CACHE_PREFIX @ ?k)
              (CacheJSON (Some 7) (at_write late_clock) 500) = Stored \<and>
            1002 = at_write late_clock) \<or>
           (crowded (stale_store(testKey := None)) (CACHE_PREFIX @ ?k)
              (CacheJSON (Some 7) (at_write late_clock) 500) = QuotaExceededError \<and>
            crowded (clearExpiredCache crowded (at_clear late_clock) (stale_store(testKey := None)))
              (CACHE_PREFIX @ ?k) (CacheJSON (Some 7) (at_retry late_clock) 500) = Stored \<and>
            1002 = at_retry late_clock)"
    using old ne cleared
    by (simp add: crowded_def stale_store_def late_clock_def)
  have a2: "fst (isAvailable crowded ?st2)"
    by (simp add: isAvailable_def crowded_def)
  note ttl2 = saved_entry_ttl [of crowded stale_store ?k Some 7 late_clock 500 1002,
      OF p2 w2 refl a2]
  have "fst (getCacheEntry roomy 1499 ?k ?st) = Some 7"
    using ttl [of 1499] by simp
  moreover have "fst (getCacheEntry roomy 1501 ?k ?st) = None \<and>
                 snd (getCacheEntry roomy 1501 ?k ?st) (CACHE_PREFIX @ ?k) = None"
    using ttl [of 1501] by simp
  moreover have "fst (getCacheEntry crowded 1501 ?k ?st2) = Some 7"
    using ttl2 [of 1501] by simp
  moreover have "fst (getCacheEntry crowded 1503 ?k ?st2) = None"
    using ttl2 [of 1503] by simp
  moreover have "roomy ((Map.empty :: nat store)(testKey := None)) (CACHE_PREFIX @ ?k)
                   (CacheJSON (Some 7) (at_write sample_clock) 500) = Stored"
    by (simp add: roomy_def)
  moreover have "at_write sample_clock = 1000" "at_retry late_clock = 1002"
    by (simp_all add: sample_clock_def late_clock_def)
  moreover have "crowded (stale_store(testKey := None)) (CACHE_PREFIX @ ?k)
                   (CacheJSON (Some 7) (at_write late_clock) 500) = QuotaExceededError"
    using old ne by (simp add: crowded_def stale_store_def)
  ultimately show ?thesis using p a by blast
qed

section \<open>Properties of the football API service\<close>

subsection \<open>convertGridToPosition\<close>

lemma split_on_nonempty: "split_on sep s \<noteq> []"
  by (induction s) (auto split: list.split)

lemma split_on_no_sep: "sep \<notin> set s \<Longrightarrow> split_on sep s = [s]"
  by (induction s) auto

lemma split_on_first: "sep \<notin> set rs \<Longrightarrow> split_on sep (rs @ sep # cs) = rs # split_on sep cs"
  by (induction rs) auto

lemma add_rows_sum:
  "i \<le> length sizes \<Longrightarrow>
   add_rows (Num (int r)) (map (\<lambda>n. Num (int n)) sizes) i (Num p) =
     Num (p + int (sum_list (take (r - 2 - i) (drop i sizes))))"
proof (induction "length sizes - i" arbitrary: i p)
  case 0
  then show ?case by (subst add_rows.simps) simp
next
  case (Suc k)
  show ?case
  proof (cases "int i < int r - 2")
    case True
    have i: "i < length sizes" using Suc.hyps(2) by simp
    have k: "k = length sizes - (i + 1)" using Suc.hyps(2) by simp
    have d: "drop i sizes = sizes ! i # drop (i + 1) sizes"
      using i by (simp add: Cons_nth_drop_Suc)
    obtain m where m: "r - 2 - i = Suc m" "r - 2 - (i + 1) = m"
      using True by (cases "r - 2 - i") auto
    have step: "add_rows (Num (int r)) (map (\<lambda>n. Num (int n)) sizes) i (Num p) =
                add_rows (Num (int r)) (map (\<lambda>n. Num (int n)) sizes) (i + 1) (Num (p + int (sizes ! i)))"
      using True i by (subst add_rows.simps) simp
    have "i + 1 \<le> length sizes" using i by simp
    then have "add_rows (Num (int r)) (map (\<lambda>n. Num (int n)) sizes) (i + 1) (Num (p + int (sizes ! i))) =
            Num (p + int (sizes ! i) + int (sum_list (take m (drop (i + 1) sizes))))"
      using Suc.hyps(1) [OF k, of "p + int (sizes ! i)"] m(2) by simp
    also have "\<dots> = Num (p + int (sum_list (take (r - 2 - i) (drop i sizes))))"
      unfolding m(1) d by simp
    finally show ?thesis using step by simp
  next
    case False
    then have "r - 2 - i = 0" by linarith
    then show ?thesis using False by (subst add_rows.simps) simp
  qed
qed

text \<open>
  Claim C1. Let the grid string be \<open>"r:c"\<close>, its two pieces read by \<open>Number\<close> as the
  integers \<open>r \<ge> 1\<close> and \<open>c\<close>, and let the pieces of the formation string read as the
  line sizes \<open>sizes\<close> (\<open>"4-4-2"\<close> as \<open>[4, 4, 2]\<close>). Then row 1 gives index 0, and a row
  \<open>r \<ge> 2\<close> gives \<open>1 + (the sizes of the lines of rows 2 to r - 1) + (c - 1)\<close>: row 2 is
  the first formation line, so these are the first \<open>r - 2\<close> sizes (all of them when the
  formation has fewer lines). The bounds keep every number in the range where the
  arithmetic of doubles is exact.
\<close>

theorem convertGridToPosition_index:
  assumes "grid = rs @ 0x3A # cs" and "0x3A \<notin> set rs" and "0x3A \<notin> set cs"
    and "Number R rs = Num (int r)" and "Number R cs = Num (int c)"
    and "map (Number R) (split_on 0x2D formation) = map (\<lambda>n. Num (int n)) sizes"
    and "1 \<le> r" and "r < 2 ^ 53" and "1 + sum_list sizes + c < 2 ^ 53"
  shows "convertGridToPosition R grid formation =
           Num (if r = 1 then 0 else 1 + int (sum_list (take (r - 2) sizes)) + (int c - 1))"
proof -
  have pieces: "map (Number R) (split_on 0x3A grid) = [Num (int r), Num (int c)]"
    using assms(1-5) by (simp add: split_on_first split_on_no_sep)
  show ?thesis
  proof (cases "r = 1")
    case True
    then show ?thesis by (simp add: convertGridToPosition_def pieces)
  next
    case False
    have "add_rows (Num (int r)) (map (\<lambda>n. Num (int n)) sizes) 0 (Num 1) =
            Num (1 + int (sum_list (take (r - 2) sizes)))"
      using add_rows_sum [of 0 sizes r 1] by simp
    then show ?thesis
      using False by (simp add: convertGridToPosition_def pieces assms(6))
  qed
qed


theorem convertGridToPosition_index_witness:
  "convertGridToPosition excerpt_runtime (asc ''1:1'') (asc ''4-4-2'') = Num 0 \<and>
   convertGridToPosition excerpt_runtime (asc ''2:1'') (asc ''4-4-2'') = Num 1 \<and>
   convertGridToPosition excerpt_runtime (asc ''2:2'') (asc ''4-4-2'') = Num 2 \<and>
   convertGridToPosition excerpt_runtime (asc ''2:3'') (asc ''4-4-2'') = Num 3 \<and>
   convertGridToPosition excerpt_runtime (asc ''2:4'') (asc ''4-4-2'') = Num 4 \<and>
   convertGridToPosition excerpt_runtime (asc ''3:1'') (asc ''4-4-2'') = Num 5 \<and>
   convertGridToPosition excerpt_runtime (asc ''3:2'') (asc ''4-4-2'') = Num 6 \<and>
   convertGridToPosition excerpt_runtime (asc ''3:3'') (asc ''4-4-2'') = Num 7 \<and>
   convertGridToPosition excerpt_runtime (asc ''3:4'') (asc ''4-4-2'') = Num 8 \<and>
   convertGridToPosition excerpt_runtime (asc ''4:1'') (asc ''4-4-2'') = Num 9 \<and>
   convertGridToPosition excerpt_runtime (asc ''4:2'') (asc ''4-4-2'') = Num 10"
proof -
  let ?X = excerpt_runtime
  have f: "map (Number ?X) (split_on 0x2D (asc ''4-4-2'')) = map (\<lambda>n. Num (int n)) [4, 4, 2]"
    by code_simp
  note T = convertGridToPosition_index [where R = ?X and formation = "asc ''4-4-2''" and sizes = "[4, 4, 2]",
      OF _ _ _ _ _ f]
  have e0: "convertGridToPosition ?X (asc ''1:1'') (asc ''4-4-2'') = Num 0"
    by (rule T [of _ "asc ''1''" "asc ''1''" 1 1, THEN trans])
       (code_simp, code_simp, code_simp, code_simp, code_simp, simp_all)
  have e1: "convertGridToPosition ?X (asc ''2:1'') (asc ''4-4-2'') = Num 1"
    by (rule T [of _ "asc ''2''" "asc ''1''" 2 1, THEN trans])
       (code_simp, code_simp, code_simp, code_simp, code_simp, simp_all)
  have e2: "convertGridToPosition ?X (asc ''2:2'') (asc ''4-4-2'') = Num 2"
    by (rule T [of _ "asc ''2''" "asc ''2''" 2 2, THEN trans])
       (code_simp, code_simp, code_simp, code_simp, code_simp, simp_all)
  have e3: "convertGridToPosition ?X (asc ''2:3'') (asc ''4-4-2'') = Num 3"
    by (rule T [of _ "asc ''2''" "asc ''3''" 2 3, THEN trans])
       (code_simp, code_simp, code_simp, code_simp, code_simp, simp_all)
  have e4: "convertGridToPosition ?X (asc ''2:4'') (asc ''4-4-2'') = Num 4"
    by (rule T [of _ "asc ''2''" "asc ''4''" 2 4, THEN trans])
       (code_simp, code_simp, code_simp, code_simp, code_simp, simp_all)
  have e5: "convertGridToPosition ?X (asc ''3:1'') (asc ''4-4-2'') = Num 5"
    by (rule T [of _ "asc ''3''" "asc ''1''" 3 1, THEN trans])
       (code_simp, code_simp, code_simp, code_simp, code_simp, simp_all)
  have e6: "convertGridToPosition ?X (asc ''3:2'') (asc ''4-4-2'') = Num 6"
    by (rule T [of _ "asc ''3''" "asc ''2''" 3 2, THEN trans])
       (code_simp, code_simp, code_simp, code_simp, code_simp, simp_all)
  have e7: "convertGridToPosition ?X (asc ''3:3'') (asc ''4-4-2'') = Num 7"
    by (rule T [of _ "asc ''3''" "asc ''3''" 3 3, THEN trans])
       (code_simp, code_simp, code_simp, code_simp, code_simp, simp_all)
  have e8: "convertGridToPosition ?X (asc ''3:4'') (asc ''4-4-2'') = Num 8"
    by (rule T [of _ "asc ''3''" "asc ''4''" 3 4, THEN trans])
       (code_simp, code_simp, code_simp, code_simp, code_simp, simp_all)
  have e9: "convertGridToPosition ?X (asc ''4:1'') (asc ''4-4-2'') = Num 9"
    by (rule T [of _ "asc ''4''" "asc ''1''" 4 1, THEN trans])
       (code_simp, code_simp, code_simp, code_simp, code_simp, simp_all)
  have e10: "convertGridToPosition ?X (asc ''4:2'') (asc ''4-4-2'') = Num 10"
    by (rule T [of _ "asc ''4''" "asc ''2''" 4 2, THEN trans])
       (code_simp, code_simp, code_simp, code_simp, code_simp, simp_all)
  show ?thesis
    using e0 e1 e2 e3 e4 e5 e6 e7 e8 e9 e10 by blast
qed

subsection \<open>fetchAPI\<close>

lemma fetchAPI_retry_step:
  assumes "online (env k)" and "outcome (env k) = Responds r" and "500 \<le> status r"
    and "k < MAX_RETRIES"
  shows "fetchAPI baseURL env endpoint k =
           (fst (fetchAPI baseURL env endpoint (k + 1)),
            Fetch (baseURL @ endpoint) # Sleep (INITIAL_RETRY_DELAY * 2 ^ k) #
              snd (fetchAPI baseURL env endpoint (k + 1)))"
  using assms
  by (subst fetchAPI.simps) (simp add: ok_def Let_def split: prod.split)

lemma fetchAPI_exhausted:
  assumes "online (env k)" and "outcome (env k) = Responds r" and "500 \<le> status r"
    and "\<not> k < MAX_RETRIES"
  shows "fetchAPI baseURL env endpoint k =
           (Inl (handleAPIError (status r) (statusText r)), [Fetch (baseURL @ endpoint)])"
  using assms
  by (subst fetchAPI.simps) (simp add: ok_def Let_def)

lemma handleAPIError_server:
  "500 \<le> code \<Longrightarrow> \<exists>msg. handleAPIError code text = APIError code msg True"
  by (simp add: handleAPIError_def)

text \<open>
  Claim C4. If the first four attempts are made online and each is answered with a status
  from 500 to 599, \<open>fetchAPI\<close> makes exactly these four network calls, sleeps 1000, 2000
  and 4000 ms between them, and rejects with the \<open>APIError\<close> of the last status, whose
  retryable flag is true.
\<close>

theorem fetchAPI_server_errors:
  assumes "\<forall>k \<le> 3. online (env k) \<and> outcome (env k) = Responds (r k) \<and>
                    500 \<le> status (r k) \<and> status (r k) \<le> 599"
  shows "fetchAPI baseURL env endpoint 0 =
           (Inl (handleAPIError (status (r 3)) (statusText (r 3))),
            [Fetch (baseURL @ endpoint), Sleep 1000,
             Fetch (baseURL @ endpoint), Sleep 2000,
             Fetch (baseURL @ endpoint), Sleep 4000,
             Fetch (baseURL @ endpoint)]) \<and>
         (\<exists>msg. handleAPIError (status (r 3)) (statusText (r 3)) = APIError (status (r 3)) msg True)"
proof -
  have a: "online (env k)" "outcome (env k) = Responds (r k)" "500 \<le> status (r k)" if "k \<le> 3" for k
    using assms that by auto
  have 3: "fetchAPI baseURL env endpoint 3 =
             (Inl (handleAPIError (status (r 3)) (statusText (r 3))), [Fetch (baseURL @ endpoint)])"
    by (rule fetchAPI_exhausted) (simp_all add: a MAX_RETRIES_def)
  have 2: "fetchAPI baseURL env endpoint 2 =
             (Inl (handleAPIError (status (r 3)) (statusText (r 3))),
              [Fetch (baseURL @ endpoint), Sleep 4000, Fetch (baseURL @ endpoint)])"
    using fetchAPI_retry_step [of env 2 "r 2" baseURL endpoint] a [of 2] 3
    by (simp add: MAX_RETRIES_def INITIAL_RETRY_DELAY_def numeral_2_eq_2 numeral_3_eq_3)
  have 1: "fetchAPI baseURL env endpoint 1 =
             (Inl (handleAPIError (status (r 3)) (statusText (r 3))),
              [Fetch (baseURL @ endpoint), Sleep 2000,
               Fetch (baseURL @ endpoint), Sleep 4000, Fetch (baseURL @ endpoint)])"
    using fetchAPI_retry_step [of env 1 "r 1" baseURL endpoint] a [of 1] 2
    by (simp add: MAX_RETRIES_def INITIAL_RETRY_DELAY_def numeral_2_eq_2 numeral_3_eq_3)
  have 0: "fetchAPI baseURL env endpoint 0 =
             (Inl (handleAPIError (status (r 3)) (statusText (r 3))),
              [Fetch (baseURL @ endpoint), Sleep 1000,
               Fetch (baseURL @ endpoint), Sleep 2000,
               Fetch (baseURL @ endpoint), Sleep 4000, Fetch (baseURL @ endpoint)])"
    using fetchAPI_retry_step [of env 0 "r 0" baseURL endpoint] a [of 0] 1
    by (simp add: MAX_RETRIES_def INITIAL_RETRY_DELAY_def numeral_2_eq_2 numeral_3_eq_3)
  show ?thesis
    using 0 handleAPIError_server [OF a(3) [of 3]] by simp
qed

theorem fetchAPI_server_errors_witness:
  "fetchAPI (asc ''https://v3.football.api-sports.io'') (always_500 :: nat \<Rightarrow> nat attempt)
     (asc ''/leagues'') 0 =
     (Inl (APIError 500
        (asc ''The football API is temporarily unavailable. Please try again in a moment.'') True),
      [Fetch (asc ''https://v3.football.api-sports.io/leagues''), Sleep 1000,
       Fetch (asc ''https://v3.football.api-sports.io/leagues''), Sleep 2000,
       Fetch (asc ''https://v3.football.api-sports.io/leagues''), Sleep 4000,
       Fetch (asc ''https://v3.football.api-sports.io/leagues'')])"
proof -
  let ?r = "\<lambda>k::nat. \<lparr> status = 500, statusText = asc ''Internal Server Error'',
                        retryAfter = None, body = (BodyThrows Unexpected :: nat body) \<rparr>"
  have h: "\<forall>k \<le> 3. online (always_500 k) \<and> outcome (always_500 k) = Responds (?r k) \<and>
                    500 \<le> status (?r k) \<and> status (?r k) \<le> 599"
    by (simp add: always_500_def)
  have u: "asc ''https://v3.football.api-sports.io'' @ asc ''/leagues'' =
           asc ''https://v3.football.api-sports.io/leagues''"
    by (simp add: asc_def)
  have e: "handleAPIError 500 (asc ''Internal Server Error'') = APIError 500
        (asc ''The football API is temporarily unavailable. Please try again in a moment.'') True"
    by (simp add: handleAPIError_def)
  show ?thesis
    using fetchAPI_server_errors [OF h, of "asc ''https://v3.football.api-sports.io''" "asc ''/leagues''"]
    by (simp add: u e)
qed

subsection \<open>getLineup\<close>

lemma show_int_10: "show_int 10 = asc ''10''"
  by code_simp

lemma show_int_12: "show_int 12 = asc ''12''"
  by code_simp

lemma show_int_34: "show_int 34 = asc ''34''"
  by code_simp

lemma asc_append: "asc a @ asc b = asc (a @ b)"
  by (simp add: asc_def)

text \<open>
  Claim C5. On a cache miss, when the payload has arrived: if no entry of the payload has
  the requested team id, \<open>getLineup\<close> rejects with a plain \<open>Error\<close>; if the entry of the
  team does not have exactly eleven starting players, it rejects with a plain \<open>Error\<close>
  too, and returns no list. Neither is an \<open>APIError\<close>.
\<close>

theorem getLineup_rejects:
  assumes "fst (getCacheEntry B now (lineup_key fixture team) st) = None"
    and "fst (fetchAPI baseURL env (lineup_endpoint fixture) 0) = Inr response"
  shows "(find (\<lambda>item. item_team_id item = team) response = None \<longrightarrow>
            fst (getLineup R J B baseURL now clock env fixture team st) =
              Inl (Error (asc ''Lineup not found for team '' @ show_int team @
                          asc '' in fixture '' @ show_int fixture))) \<and>
         (\<forall>teamLineup.
            find (\<lambda>item. item_team_id item = team) response = Some teamLineup \<and>
            length (item_startXI teamLineup) \<noteq> 11 \<longrightarrow>
            fst (getLineup R J B baseURL now clock env fixture team st) =
              Inl (Error (asc ''Invalid lineup: expected 11 players, got '' @
                          show_int (int (length (item_startXI teamLineup))))))"
  using assms
  by (auto simp: getLineup_def Let_def split: prod.splits option.splits sum.splits)

theorem getLineup_rejects_witness:
  "fst (getLineup excerpt_runtime Some roomy api_base 0 sample_clock
          (replies [sample_lineup 11, sample_lineup 10]) 10 34 Map.empty) =
     Inl (Error (asc ''Lineup not found for team 34 in fixture 10'')) \<and>
   fst (getLineup excerpt_runtime Some roomy api_base 0 sample_clock
          (replies [sample_lineup 10]) 10 33 Map.empty) =
     Inl (Error (asc ''Invalid lineup: expected 11 players, got 10'')) \<and>
   fst (getLineup excerpt_runtime Some roomy api_base 0 sample_clock
          (replies [sample_lineup 12]) 10 33 Map.empty) =
     Inl (Error (asc ''Invalid lineup: expected 11 players, got 12''))"
proof -
  have miss: "fst (getCacheEntry roomy 0 (lineup_key 10 team) (Map.empty :: payload store)) = None"
    for team
    by (simp add: getCacheEntry_def isAvailable_def roomy_def)
  have fetched: "fst (fetchAPI api_base (replies items) (lineup_endpoint 10) 0) = Inr items"
    for items :: "lineup_response list"
    by (subst fetchAPI.simps) (simp add: replies_def ok_def)
  have none: "find (\<lambda>item. item_team_id item = 34) [sample_lineup 11, sample_lineup 10] = None"
    by (simp add: sample_lineup_def)
  have some: "find (\<lambda>item. item_team_id item = 33) [sample_lineup n] = Some (sample_lineup n)"
    "length (item_startXI (sample_lineup n)) = n" for n
    by (simp_all add: sample_lineup_def)
  have 1: "fst (getLineup excerpt_runtime Some roomy api_base 0 sample_clock
          (replies [sample_lineup 11, sample_lineup 10]) 10 34 Map.empty) =
     Inl (Error (asc ''Lineup not found for team 34 in fixture 10''))"
    using getLineup_rejects [OF miss fetched, where team = 34
        and response = "[sample_lineup 11, sample_lineup 10]" and R = excerpt_runtime
        and J = Some and clock = sample_clock] none
    by (simp add: show_int_10 show_int_34 asc_append)
  have 2: "fst (getLineup excerpt_runtime Some roomy api_base 0 sample_clock
          (replies [sample_lineup 10]) 10 33 Map.empty) =
     Inl (Error (asc ''Invalid lineup: expected 11 players, got 10''))"
    using getLineup_rejects [OF miss fetched, where team = 33
        and response = "[sample_lineup 10]" and R = excerpt_runtime
        and J = Some and clock = sample_clock] some [of 10]
    by (simp add: show_int_10 asc_append)
  have 3: "fst (getLineup excerpt_runtime Some roomy api_base 0 sample_clock
          (replies [sample_lineup 12]) 10 33 Map.empty) =
     Inl (Error (asc ''Invalid lineup: expected 11 players, got 12''))"
    using getLineup_rejects [OF miss fetched, where team = 33
        and response = "[sample_lineup 12]" and R = excerpt_runtime
        and J = Some and clock = sample_clock] some [of 12]
    by (simp add: show_int_12 asc_append)
  show ?thesis using 1 2 3 by blast
qed

lemma getCacheEntry_store:
  "snd (getCacheEntry B now key st) k = st k \<or>
   (snd (getCacheEntry B now key st) k = None \<and>
    (k = testKey \<or> (k = CACHE_PREFIX @ key \<and> (\<exists>v. st k = Some v \<and> expired now v))))"
  using cache_key_not_testKey [of key]
  by (auto simp: getCacheEntry_def isAvailable_def expired_def
           split: set_result.splits option.splits item.splits)

lemma getCacheEntry_miss_again:
  assumes "fst (getCacheEntry B now key st) = None"
  shows "fst (getCacheEntry B now' key (snd (getCacheEntry B now key st))) = None"
  using assms cache_key_not_testKey [of key]
  by (auto simp: getCacheEntry_def isAvailable_def
           split: set_result.splits option.splits item.splits if_splits)

lemma fetchAPI_online_fetches:
  "online (env 0) \<Longrightarrow>
   \<exists>rest. snd (fetchAPI baseURL env endpoint 0) = Fetch (baseURL @ endpoint) # rest"
  by (subst fetchAPI.simps)
     (auto simp: Let_def split: fetch_outcome.splits body.splits prod.splits)

lemma getLineup_miss_trace:
  assumes "fst (getCacheEntry B now (lineup_key fixture team) st) = None"
  shows "snd (snd (getLineup R J B baseURL now clock env fixture team st)) =
           snd (fetchAPI baseURL env (lineup_endpoint fixture) 0)"
  using assms
  by (auto simp: getLineup_def Let_def split: prod.splits option.splits sum.splits)

lemma getLineup_error_store:
  assumes "fst (getLineup R J B baseURL now clock env fixture team st) = Inl err"
  shows "fst (getCacheEntry B now (lineup_key fixture team) st) = None \<and>
         fst (snd (getLineup R J B baseURL now clock env fixture team st)) =
           snd (getCacheEntry B now (lineup_key fixture team) st)"
  using assms
  by (auto simp: getLineup_def Let_def split: prod.splits option.splits sum.splits if_splits)

text \<open>
  Claim C10. If \<open>getLineup\<close> rejects, the store it leaves is the store that its cache
  lookup left: \<open>saveCacheEntry\<close> was not called. Every key holds what it held before,
  unless the lookup removed it (the probe key of \<open>isAvailable\<close>, or an expired entry under
  the key of this lineup). A later lookup of the key in the same browser reports absence,
  so a later call for the same fixture and team starts with a network call when it is
  online.
\<close>

theorem getLineup_error_no_write:
  assumes "fst (getLineup R J B baseURL now clock env fixture team st) = Inl err"
  shows "fst (snd (getLineup R J B baseURL now clock env fixture team st)) =
           snd (getCacheEntry B now (lineup_key fixture team) st) \<and>
         (\<forall>k. fst (snd (getLineup R J B baseURL now clock env fixture team st)) k = st k \<or>
              (fst (snd (getLineup R J B baseURL now clock env fixture team st)) k = None \<and>
               (k = testKey \<or>
                (k = CACHE_PREFIX @ lineup_key fixture team \<and> (\<exists>v. st k = Some v \<and> expired now v))))) \<and>
         (\<forall>now'.
            fst (getCacheEntry B now' (lineup_key fixture team)
                   (fst (snd (getLineup R J B baseURL now clock env fixture team st)))) = None) \<and>
         (\<forall>now' clock' env'.
            online (env' 0) \<longrightarrow>
            (\<exists>rest. snd (snd (getLineup R J B baseURL now' clock' env' fixture team
                                (fst (snd (getLineup R J B baseURL now clock env fixture team st))))) =
                      Fetch (baseURL @ lineup_endpoint fixture) # rest))"
proof -
  let ?key = "lineup_key fixture team"
  let ?st' = "fst (snd (getLineup R J B baseURL now clock env fixture team st))"
  have miss: "fst (getCacheEntry B now ?key st) = None"
    and st': "?st' = snd (getCacheEntry B now ?key st)"
    using getLineup_error_store [OF assms] by simp_all
  have unchanged: "\<forall>k. ?st' k = st k \<or>
              (?st' k = None \<and>
               (k = testKey \<or> (k = CACHE_PREFIX @ ?key \<and> (\<exists>v. st k = Some v \<and> expired now v))))"
    unfolding st' using getCacheEntry_store [of B now ?key st] by blast
  have again: "fst (getCacheEntry B now' ?key ?st') = None" for now'
    unfolding st' by (rule getCacheEntry_miss_again [OF miss])
  have refetch: "\<exists>rest. snd (snd (getLineup R J B baseURL now' clock' env' fixture team ?st')) =
                      Fetch (baseURL @ lineup_endpoint fixture) # rest"
    if "online (env' 0)" for now' clock' env'
    using getLineup_miss_trace [OF again, of R J baseURL now' clock' env']
      fetchAPI_online_fetches [of env' baseURL "lineup_endpoint fixture"] that
    by simp
  show ?thesis
    using st' unchanged again refetch by blast
qed


theorem getLineup_error_no_write_witness:
  "fst (getLineup excerpt_runtime Some roomy api_base 0 sample_clock
          (replies [sample_lineup 10]) 10 33 Map.empty) =
     Inl (Error (asc ''Invalid lineup: expected 11 players, got 10'')) \<and>
   fst (snd (getLineup excerpt_runtime Some roomy api_base 0 sample_clock
          (replies [sample_lineup 10]) 10 33 Map.empty)) (CACHE_PREFIX @ lineup_key 10 33) = None \<and>
   fst (getCacheEntry roomy 5 (lineup_key 10 33)
     (fst (snd (getLineup excerpt_runtime Some roomy api_base 0 sample_clock
          (replies [sample_lineup 10]) 10 33 Map.empty)))) = None"
proof -
  let ?call = "getLineup excerpt_runtime Some roomy api_base 0 sample_clock
          (replies [sample_lineup 10]) 10 33 Map.empty"
  have fetched: "fetchAPI api_base (replies [sample_lineup 10]) (lineup_endpoint 10) 0 =
                   (Inr [sample_lineup 10], [Fetch (api_base @ lineup_endpoint 10)])"
    by (subst fetchAPI.simps) (simp add: replies_def ok_def)
  have sl: "item_team_id (sample_lineup 10) = 33" "length (item_startXI (sample_lineup 10)) = 10"
    by (simp_all add: sample_lineup_def)
  have err: "fst ?call = Inl (Error (asc ''Invalid lineup: expected 11 players, got 10''))"
    by (simp add: getLineup_def getCacheEntry_def isAvailable_def roomy_def fetched
                  sl show_int_10 asc_append)
  note nw = getLineup_error_no_write [OF err]
  have "fst (snd ?call) (CACHE_PREFIX @ lineup_key 10 33) = None"
    using nw by (auto simp: expired_def)
  moreover have "fst (getCacheEntry roomy 5 (lineup_key 10 33) (fst (snd ?call))) = None"
    using nw by blast
  ultimately show ?thesis using err by blast
qed

subsection \<open>Pending requests\<close>

lemma map_of_jsmap_set: "map_of (jsmap_set k v m) k = Some v"
  by (induction m) auto

lemma map_of_jsmap_delete: "map_of (jsmap_delete k m) k = None"
  by (induction m) (auto simp: jsmap_delete_def)

text \<open>
  \<open>getLeagues\<close> shares a pending request: a call made while the key is pending and the
  cache misses fetches nothing and waits for the pending promise; the first call
  registers its promise, and the \<open>finally\<close> block removes it on success and on failure.
\<close>

lemma getLeagues_call_shared:
  assumes "fst (getCacheEntry B now (asc ''leagues'') (storage svc)) = None"
    and "map_of (pendingRequests svc) (asc ''leagues'') = Some pending"
  shows "fst (getLeagues_call B baseURL now is_online svc) = Awaits pending \<and>
         requests (snd (getLeagues_call B baseURL now is_online svc)) = requests svc \<and>
         pendingRequests (snd (getLeagues_call B baseURL now is_online svc)) = pendingRequests svc"
  using assms by (auto simp: getLeagues_call_def Let_def split: prod.splits option.splits)

lemma getLeagues_call_registers:
  assumes "fst (getCacheEntry B now (asc ''leagues'') (storage svc)) = None"
    and "map_of (pendingRequests svc) (asc ''leagues'') = None"
  shows "fst (getLeagues_call B baseURL now is_online svc) = Awaits (promises svc) \<and>
         requests (snd (getLeagues_call B baseURL now is_online svc)) =
           requests svc @ (if is_online then [baseURL @ asc ''/leagues''] else []) \<and>
         map_of (pendingRequests (snd (getLeagues_call B baseURL now is_online svc))) (asc ''leagues'') =
           Some (promises svc)"
  using assms
  by (auto simp: getLeagues_call_def start_fetchAPI_def Let_def map_of_jsmap_set
           split: prod.splits option.splits)

lemma getLeagues_settled_clears:
  "map_of (pendingRequests (snd (getLeagues_settled J B clock fetched svc))) (asc ''leagues'') = None"
  by (cases fetched) (simp_all add: getLeagues_settled_def Let_def map_of_jsmap_delete)

lemma getFixtures_call_miss:
  assumes "fst (getCacheEntry B now (fixtures_key team season) (storage svc)) = None"
  shows "fst (getFixtures_call B baseURL now True team season svc) = Awaits (promises svc) \<and>
         requests (snd (getFixtures_call B baseURL now True team season svc)) =
           requests svc @ [baseURL @ fixtures_endpoint team season] \<and>
         pendingRequests (snd (getFixtures_call B baseURL now True team season svc)) =
           pendingRequests svc"
  using assms
  by (auto simp: getFixtures_call_def start_fetchAPI_def Let_def split: prod.splits option.splits)

lemma getLeagues_call_twice:
  "fst (getLeagues_call roomy api_base 0 True new_api_service) = Awaits 0 \<and>
   fst (getLeagues_call roomy api_base 1 True
          (snd (getLeagues_call roomy api_base 0 True new_api_service))) = Awaits 0 \<and>
   requests (snd (getLeagues_call roomy api_base 1 True
          (snd (getLeagues_call roomy api_base 0 True new_api_service)))) =
     [asc ''https://v3.football.api-sports.io/leagues'']"
proof -
  have u: "api_base @ asc ''/leagues'' = asc ''https://v3.football.api-sports.io/leagues''"
    by code_simp
  have k: "CACHE_PREFIX @ asc ''leagues'' \<noteq> testKey"
    by code_simp
  show ?thesis
    using k by (simp add: getLeagues_call_def start_fetchAPI_def new_api_service_def
                  getCacheEntry_def isAvailable_def roomy_def u)
qed

text \<open>
  Claim C2 asks the same of every operation. \<open>getFixtures\<close> (as \<open>getLeagueSeasons\<close>,
  \<open>getTeamsByLeagueSeason\<close> and \<open>getLineup\<close>) goes from the cache lookup straight to
  \<open>fetchAPI\<close>: two calls for team 33 and season 2022, the second made before the first
  request has settled, make two network calls with the same URL and wait for two
  different promises. The same two calls of \<open>getLeagues\<close> make one
  (\<open>getLeagues_call_twice\<close>).
\<close>

theorem getFixtures_call_twice:
  "fst (getFixtures_call roomy api_base 0 True 33 2022 new_api_service) = Awaits 0 \<and>
   fst (getFixtures_call roomy api_base 1 True 33 2022
          (snd (getFixtures_call roomy api_base 0 True 33 2022 new_api_service))) = Awaits 1 \<and>
   requests (snd (getFixtures_call roomy api_base 1 True 33 2022
          (snd (getFixtures_call roomy api_base 0 True 33 2022 new_api_service)))) =
     [asc ''https://v3.football.api-sports.io/fixtures?team=33&season=2022'',
      asc ''https://v3.football.api-sports.io/fixtures?team=33&season=2022'']"
proof -
  have u: "api_base @ fixtures_endpoint 33 2022 =
           asc ''https://v3.football.api-sports.io/fixtures?team=33&season=2022''"
    by code_simp
  have k: "CACHE_PREFIX @ fixtures_key 33 2022 \<noteq> testKey"
    by code_simp
  show ?thesis
    using k by (simp add: getFixtures_call_def start_fetchAPI_def new_api_service_def
                  getCacheEntry_def isAvailable_def roomy_def u)
qed

end
